theory Spec2Isabelle
  imports Main
begin

section \<open>Strings\<close>

text \<open>
  The cheatsheet generator (\<^verbatim>\<open>generate_cheatsheet.ts\<close>) is embedded function by function.
  Strings are lists of characters; the model covers ASCII text, where
  \<^verbatim>\<open>String.prototype.toLowerCase\<close> changes the letters A to Z and nothing else.
\<close>

definition is_lower_alnum :: "char \<Rightarrow> bool" where
  \<comment> \<open>the character class \<^verbatim>\<open>[a-z0-9]\<close>\<close>
  "is_lower_alnum c = (c \<in> set ''abcdefghijklmnopqrstuvwxyz0123456789'')"

definition lower_char :: "char \<Rightarrow> char" where
  "lower_char c =
     (case map_of (zip ''ABCDEFGHIJKLMNOPQRSTUVWXYZ'' ''abcdefghijklmnopqrstuvwxyz'') c of
        Some d \<Rightarrow> d
      | None \<Rightarrow> c)"

definition toLowerCase :: "string \<Rightarrow> string" where
  "toLowerCase s = map lower_char s"

definition replace_each :: "string \<Rightarrow> string" where
  \<comment> \<open>\<^verbatim>\<open>s.replace(/[^a-z0-9]/g, '_')\<close>: every character outside the class becomes an underscore\<close>
  "replace_each s = map (\<lambda>c. if is_lower_alnum c then c else CHR ''_'') s"

function replace_runs :: "string \<Rightarrow> string" where
  \<comment> \<open>\<^verbatim>\<open>s.replace(/[^a-z0-9]+/g, '_')\<close>: the scan goes left to right; where the greedy
      pattern matches, the whole match is replaced by one underscore and the scan
      goes on behind it\<close>
  "replace_runs [] = []"
| "replace_runs (c # cs) =
     (if is_lower_alnum c then c # replace_runs cs
      else CHR ''_'' # replace_runs (dropWhile (\<lambda>d. \<not> is_lower_alnum d) cs))"
  by pat_completeness auto
termination
  by (relation "measure length") (auto simp: le_imp_less_Suc length_dropWhile_le)

definition startsWith :: "string \<Rightarrow> string \<Rightarrow> bool" where
  "startsWith s pre = (take (length pre) s = pre)"

fun str_includes :: "string \<Rightarrow> string \<Rightarrow> bool" where
  \<comment> \<open>\<^verbatim>\<open>s.includes(sub)\<close>\<close>
  "str_includes [] sub = (sub = [])"
| "str_includes (c # cs) sub = (startsWith (c # cs) sub \<or> str_includes cs sub)"

definition is_space :: "char \<Rightarrow> bool" where
  \<comment> \<open>the ASCII white space and line terminators that \<^verbatim>\<open>trim\<close> strips:
      tab, line feed, vertical tab, form feed, carriage return, space\<close>
  "is_space c = (c \<in> {CHR 0x09, CHR 0x0A, CHR 0x0B, CHR 0x0C, CHR 0x0D, CHR '' ''})"

definition trim :: "string \<Rightarrow> string" where
  "trim s = rev (dropWhile is_space (rev (dropWhile is_space s)))"

definition join_with :: "string \<Rightarrow> string list \<Rightarrow> string" where
  \<comment> \<open>\<^verbatim>\<open>parts.join(sep)\<close> on strings\<close>
  "join_with sep parts = (case parts of [] \<Rightarrow> [] | p # ps \<Rightarrow> p @ concat (map (\<lambda>q. sep @ q) ps))"

section \<open>Paths\<close>

text \<open>
  \<^verbatim>\<open>node:path\<close> on a POSIX system, as the container runs it: \<^verbatim>\<open>path.normalize\<close>,
  \<^verbatim>\<open>path.join\<close>, \<^verbatim>\<open>path.resolve\<close> and \<^verbatim>\<open>path.basename\<close>. A path is split at its
  slashes; empty and \<^verbatim>\<open>.\<close> segments drop out, and \<^verbatim>\<open>..\<close> removes the segment before it.
\<close>

type_synonym filepath = string

fun segments :: "string \<Rightarrow> string list" where
  "segments [] = [[]]"
| "segments (c # cs) =
     (if c = CHR ''/'' then [] # segments cs
      else (case segments cs of [] \<Rightarrow> [[c]] | s # ss \<Rightarrow> (c # s) # ss))"

fun normalizeString :: "bool \<Rightarrow> string list \<Rightarrow> string list \<Rightarrow> string list" where
  \<comment> \<open>the second argument is the result so far, the third the segments still to read\<close>
  "normalizeString allowAboveRoot res [] = res"
| "normalizeString allowAboveRoot res (s # ss) =
     (if s = [] \<or> s = ''.'' then normalizeString allowAboveRoot res ss
      else if s = ''..'' then
        (if res \<noteq> [] \<and> last res \<noteq> ''..'' then normalizeString allowAboveRoot (butlast res) ss
         else if allowAboveRoot then normalizeString allowAboveRoot (res @ [''..'']) ss
         else normalizeString allowAboveRoot res ss)
      else normalizeString allowAboveRoot (res @ [s]) ss)"

definition normalize :: "filepath \<Rightarrow> filepath" where
  "normalize p =
     (if p = [] then ''.''
      else
        (let isAbsolute = (hd p = CHR ''/'');
             trailingSeparator = (last p = CHR ''/'');
             q = join_with ''/'' (normalizeString (\<not> isAbsolute) [] (segments p))
         in if q = [] then (if isAbsolute then ''/'' else if trailingSeparator then ''./'' else ''.'')
            else (if isAbsolute then ''/'' else [])
                 @ q @ (if trailingSeparator then ''/'' else [])))"

definition path_join :: "string list \<Rightarrow> filepath" where
  "path_join args =
     (let joined = join_with ''/'' (filter (\<lambda>a. a \<noteq> []) args)
      in if joined = [] then ''.'' else normalize joined)"

fun resolve_from :: "string list \<Rightarrow> string \<Rightarrow> string \<times> bool" where
  \<comment> \<open>the loop of \<^verbatim>\<open>path.resolve\<close>: the arguments from the last to the first, then the
      working directory, until an absolute one has been prepended\<close>
  "resolve_from [] resolvedPath = (resolvedPath, False)"
| "resolve_from (p # ps) resolvedPath =
     (if p = [] then resolve_from ps resolvedPath
      else if hd p = CHR ''/'' then (p @ ''/'' @ resolvedPath, True)
      else resolve_from ps (p @ ''/'' @ resolvedPath))"

definition path_resolve :: "filepath \<Rightarrow> string list \<Rightarrow> filepath" where
  \<comment> \<open>the first argument is \<^verbatim>\<open>process.cwd()\<close>\<close>
  "path_resolve workdir args =
     (case resolve_from (rev args @ [workdir]) [] of
        (resolvedPath, resolvedAbsolute) \<Rightarrow>
          (let q = join_with ''/'' (normalizeString (\<not> resolvedAbsolute) [] (segments resolvedPath))
           in if resolvedAbsolute then ''/'' @ q else if q \<noteq> [] then q else ''.''))"

definition basename :: "filepath \<Rightarrow> string" where
  "basename p = (case filter (\<lambda>s. s \<noteq> []) (segments p) of [] \<Rightarrow> [] | s # ss \<Rightarrow> last (s # ss))"

section \<open>Constants and names derived from a source\<close>

definition TEMP_REPO_DIR :: filepath where
  "TEMP_REPO_DIR = ''./repo_temp''"

definition CONTAINER_OUTPUT_DIR :: filepath where
  "CONTAINER_OUTPUT_DIR = ''/app/output''"

definition SOURCES_DIR :: filepath where
  "SOURCES_DIR = ''./sources''"

definition tempRepoPath :: "string \<Rightarrow> filepath" where
  \<comment> \<open>\<^verbatim>\<open>processSource\<close>, line 199\<close>
  "tempRepoPath currentProjectName =
     path_join [TEMP_REPO_DIR, replace_each (toLowerCase currentProjectName)]"

definition cheatsheetFilename :: "string \<Rightarrow> string" where
  \<comment> \<open>\<^verbatim>\<open>saveCheatsheet\<close>, line 175\<close>
  "cheatsheetFilename projectName = replace_runs (toLowerCase projectName) @ ''_cheatsheet.md''"

definition fullCheatsheetPath :: "string \<Rightarrow> filepath" where
  \<comment> \<open>\<^verbatim>\<open>saveCheatsheet\<close>, line 176\<close>
  "fullCheatsheetPath projectName = path_join [CONTAINER_OUTPUT_DIR, cheatsheetFilename projectName]"

definition sourceFilePath :: "filepath \<Rightarrow> string \<Rightarrow> filepath" where
  \<comment> \<open>\<^verbatim>\<open>run\<close>, lines 279 to 281\<close>
  "sourceFilePath workdir sourceFileArg =
     (if startsWith sourceFileArg ''/'' \<or> startsWith sourceFileArg ''.''
      then path_resolve workdir [sourceFileArg]
      else path_resolve workdir [SOURCES_DIR, sourceFileArg])"

section \<open>Values, errors and the console\<close>

text \<open>
  A configuration file is read with \<^verbatim>\<open>JSON.parse\<close>, whose result TypeScript does not
  check against the declared field types, so the fields of a source are JavaScript
  values. Numbers are modelled by integers; the program only asks whether one is zero.
\<close>

datatype jsval =
    JUndefined
  | JNull
  | JBool bool
  | JNum int
  | JStr string
  | JArr "jsval list"
  | JObj "(string \<times> jsval) list"

fun truthy :: "jsval \<Rightarrow> bool" where
  "truthy JUndefined = False"
| "truthy JNull = False"
| "truthy (JBool b) = b"
| "truthy (JNum n) = (n \<noteq> 0)"
| "truthy (JStr s) = (s \<noteq> [])"
| "truthy (JArr xs) = True"
| "truthy (JObj kvs) = True"

fun toString_throws :: "jsval \<Rightarrow> bool" where
  \<comment> \<open>whether converting the value to a string (in a template literal or in
      \<^verbatim>\<open>Array.prototype.join\<close>) raises a TypeError: a parsed object does when it has a
      property \<^verbatim>\<open>toString\<close> of its own, which is never a function, and an array does when
      one of its elements does\<close>
  "toString_throws (JObj kvs) = (map_of kvs ''toString'' \<noteq> None)"
| "toString_throws (JArr xs) = (\<exists>x \<in> set xs. toString_throws x)"
| "toString_throws v = False"

datatype js_error =
    Error string
  | TypeError string
  | SystemError string string
  | ApiError string "string option"

text \<open>
  \<^const>\<open>Error\<close> carries its message, \<^const>\<open>SystemError\<close> the \<^verbatim>\<open>code\<close> and the message of an
  error of \<^verbatim>\<open>node:fs\<close> or of the process spawner, \<^const>\<open>ApiError\<close> the message of an error
  of the Gemini client and its \<^verbatim>\<open>response.promptFeedback\<close> where it has one. The text of a
  \<^const>\<open>TypeError\<close> is the engine's and is only ever printed.
\<close>

fun message :: "js_error \<Rightarrow> string" where
  "message (Error m) = m"
| "message (TypeError m) = m"
| "message (SystemError c m) = m"
| "message (ApiError m fb) = m"

fun code :: "js_error \<Rightarrow> string option" where
  "code (SystemError c m) = Some c"
| "code e = None"

fun get_property :: "jsval \<Rightarrow> string \<Rightarrow> js_error + jsval" where
  \<comment> \<open>\<^verbatim>\<open>sourceData.repo\<close>, \<^verbatim>\<open>sourceData.name\<close>, \<^verbatim>\<open>sourceData.path\<close>: no prototype has a property
      of these names\<close>
  "get_property JNull k = Inl (TypeError (''null is not an object (evaluating sourceData.'' @ k @ '')''))"
| "get_property JUndefined k = Inl (TypeError (''undefined is not an object (evaluating sourceData.'' @ k @ '')''))"
| "get_property (JObj kvs) k = Inr (case map_of kvs k of None \<Rightarrow> JUndefined | Some v \<Rightarrow> v)"
| "get_property v k = Inr JUndefined"

definition truthy_str :: "string option \<Rightarrow> bool" where
  \<comment> \<open>truthiness of a string that may be undefined\<close>
  "truthy_str s = (case s of None \<Rightarrow> False | Some t \<Rightarrow> t \<noteq> [])"

text \<open>
  The lines the program writes with \<^verbatim>\<open>console.error\<close> and \<^verbatim>\<open>console.warn\<close>, one constructor
  for each call, with the values the line prints. The progress lines of \<^verbatim>\<open>console.log\<close>
  are not recorded.
\<close>

datatype log_line =
    MissingApiKey
  | CommandFailed string string
  | Stderr string
  | TextUnavailable string
  | GenerationFailed string string
  | SafetyRatings string
  | ResponseStructure string
  | UnexpectedStart string
  | GeminiError string string
  | PromptFeedback string
  | SafetyIssue
  | TokenLimitIssue
  | SaveError filepath string
  | PermissionHint
  | CleanFailed filepath string
  | ToolNotFound
  | SourceFailed string string
  | CleanFailedAfter filepath string
  | MissingKeys filepath
  | LoadFailed filepath string
  | NotFound filepath
  | NoValidSources
  | EnvNotSet
  | SomeFailed

section \<open>The world the program runs in\<close>

record source =
  name :: jsval
  repo :: jsval
  path :: jsval
  sourceOrigin :: string

text \<open>
  The state the program changes: the paths that exist on disk, the files it has written
  with \<^verbatim>\<open>fs.writeFileSync\<close>, the commands it has passed to \<^verbatim>\<open>spawnSync\<close>, the requests it has
  sent to the generation service (documentation text and project name), the sources
  \<^verbatim>\<open>processSource\<close> has been called with, and the console.
\<close>

record world =
  disk :: "filepath set"
  written :: "(filepath \<times> string) list"
  spawned :: "jsval list list"
  requests :: "(string \<times> string) list"
  invoked :: "source list"
  console :: "log_line list"

record spawn_result =
  success :: bool
  stdout :: string
  stderr :: string
  exitCode :: string
  disk_after :: "filepath set"

record candidate =
  content_parts :: "string option list option"
  finishReason :: "string option"
  safetyRatings :: "string option"

record response =
  response_text :: "js_error + string"
  candidates :: "candidate list option"
  blockReason :: "string option"
  feedbackRatings :: "string option"

text \<open>
  What the program does not decide is a parameter: the process environment and the
  outcome of every call that leaves the program. Each outcome may depend on the world at
  the time of the call; what a file holds depends on the disk alone. \<^verbatim>\<open>positional\<close> holds
  the positional arguments as the argument parser returns them: line 21 declares them
  strings, but the parser turns an argument that looks like a number into a number. An
  environment variable that is not set is \<^const>\<open>None\<close>. \<^verbatim>\<open>exitCode\<close> is the exit code as a
  template literal prints it;
  \<^verbatim>\<open>content_parts\<close> holds \<^verbatim>\<open>content?.parts\<close> of a candidate, each part by its \<^verbatim>\<open>text\<close>;
  \<^verbatim>\<open>response_text\<close> is what \<^verbatim>\<open>response.text()\<close> does; \<^verbatim>\<open>blockReason\<close> and \<^verbatim>\<open>feedbackRatings\<close>
  are the fields of \<^verbatim>\<open>promptFeedback\<close>.
\<close>

record env =
  workdir :: filepath
  positional :: "jsval list"
  GEMINI_API_KEY :: "string option"
  REPO_URL :: "string option"
  PROJECT_NAME :: "string option"
  DOCS_DIR :: "string option"
  rmSync :: "world \<Rightarrow> filepath \<Rightarrow> js_error option"
  mkdirSync :: "world \<Rightarrow> filepath \<Rightarrow> js_error option"
  writeFileSync :: "world \<Rightarrow> filepath \<Rightarrow> string \<Rightarrow> js_error option"
  readFileSync :: "filepath set \<Rightarrow> filepath \<Rightarrow> js_error + string"
  JSON_parse :: "string \<Rightarrow> js_error + jsval"
  spawnSync :: "world \<Rightarrow> jsval list \<Rightarrow> js_error + spawn_result"
  generateContent :: "world \<Rightarrow> string \<Rightarrow> string \<Rightarrow> js_error + response"

type_synonym 'a action = "world \<Rightarrow> (js_error + 'a) \<times> world"

definition and_then :: "'a action \<Rightarrow> ('a \<Rightarrow> 'b action) \<Rightarrow> 'b action" where
  \<comment> \<open>one statement after another: an exception of the first skips the second\<close>
  "and_then m f w = (case m w of (Inl e, w') \<Rightarrow> (Inl e, w') | (Inr x, w') \<Rightarrow> f x w')"

definition report :: "log_line list \<Rightarrow> world \<Rightarrow> world" where
  "report ls w = w\<lparr>console := console w @ ls\<rparr>"

definition within :: "filepath \<Rightarrow> filepath \<Rightarrow> bool" where
  \<comment> \<open>the second path is the first or lies below it\<close>
  "within p q = (q = p \<or> startsWith q (p @ ''/''))"

definition made_dirs :: "filepath \<Rightarrow> filepath list" where
  \<comment> \<open>the directory and its parents, which \<^verbatim>\<open>mkdirSync\<close> with \<^verbatim>\<open>recursive: true\<close> creates\<close>
  "made_dirs p =
     filter (\<lambda>d. d \<noteq> [])
       (map (\<lambda>n. join_with ''/'' (take n (segments p))) [1 ..< Suc (length (segments p))])"

definition mkdir :: "env \<Rightarrow> filepath \<Rightarrow> unit action" where
  \<comment> \<open>\<^verbatim>\<open>fs.mkdirSync(p, { recursive: true })\<close>\<close>
  "mkdir env p w =
     (case mkdirSync env w p of
        Some e \<Rightarrow> (Inl e, w)
      | None \<Rightarrow> (Inr (), w\<lparr>disk := disk w \<union> set (made_dirs p)\<rparr>))"

definition remove_dir :: "env \<Rightarrow> filepath \<Rightarrow> (filepath \<Rightarrow> string \<Rightarrow> log_line) \<Rightarrow> world \<Rightarrow> world" where
  \<comment> \<open>lines 204 to 210 and 261 to 267: \<^verbatim>\<open>fs.rmSync(p, { recursive: true, force: true })\<close>
      in a \<^verbatim>\<open>try\<close> whose \<^verbatim>\<open>catch\<close> warns unless the code is \<^verbatim>\<open>ENOENT\<close>\<close>
  "remove_dir env p warning w =
     (case rmSync env w p of
        None \<Rightarrow> w\<lparr>disk := Set.filter (\<lambda>q. \<not> within p q) (disk w)\<rparr>
      | Some rmError \<Rightarrow>
          if code rmError \<noteq> Some ''ENOENT'' then report [warning p (message rmError)] w else w)"

section \<open>The helper functions\<close>

definition runCommand :: "env \<Rightarrow> string \<Rightarrow> jsval list \<Rightarrow> string \<Rightarrow> string action" where
  \<comment> \<open>lines 80 to 94, always called without a working directory. The progress line joins
      the arguments, which converts each to a string.\<close>
  "runCommand env command args errorMessage w =
     (if \<exists>a \<in> set args. toString_throws a
      then (Inl (TypeError ''Cannot convert object to primitive value''), w)
      else
        (let w1 = w\<lparr>spawned := spawned w @ [JStr command # args]\<rparr> in
         case spawnSync env w (JStr command # args) of
           Inl e \<Rightarrow> (Inl e, w1)
         | Inr r \<Rightarrow>
             (let w2 = w1\<lparr>disk := disk_after r\<rparr> in
              if \<not> success r then
                (let errorMsg =
                       (if errorMessage \<noteq> [] then errorMessage
                        else ''Command '' @ [CHR 0x22] @ command @ [CHR 0x22] @ '' failed'')
                 in (Inl (Error (errorMsg @ '' (Exit Code: '' @ exitCode r @ '')'')),
                     report [CommandFailed errorMsg (exitCode r), Stderr (stderr r)] w2))
              else (Inr (stdout r), w2))))"

definition first_candidate :: "response \<Rightarrow> candidate option" where
  \<comment> \<open>\<^verbatim>\<open>response?.candidates?.[0]\<close>\<close>
  "first_candidate response =
     (case candidates response of Some (c # cs) \<Rightarrow> Some c | _ \<Rightarrow> None)"

definition candidate_text :: "response \<Rightarrow> string" where
  \<comment> \<open>lines 121 to 124: the text of the parts of the first candidate, joined; a part
      without text adds nothing\<close>
  "candidate_text response =
     (case first_candidate response of
        Some c \<Rightarrow>
          (case content_parts c of
             Some (p # ps) \<Rightarrow> concat (map (\<lambda>t. case t of None \<Rightarrow> [] | Some u \<Rightarrow> u) (p # ps))
           | _ \<Rightarrow> [])
      | None \<Rightarrow> [])"

definition no_content_lines :: "response \<Rightarrow> string \<Rightarrow> log_line list" where
  \<comment> \<open>lines 128 to 145: what is printed when no text came back\<close>
  "no_content_lines response toolName =
     (let stopped =
            (if truthy_str (blockReason response) then None
             else (case first_candidate response of
                     None \<Rightarrow> None
                   | Some c \<Rightarrow>
                       if truthy_str (finishReason c) \<and> finishReason c \<noteq> Some ''STOP''
                       then Some c else None));
          reason =
            (case stopped of
               None \<Rightarrow> blockReason response
             | Some c \<Rightarrow>
                 Some (''Generation stopped: '' @ (case finishReason c of None \<Rightarrow> [] | Some f \<Rightarrow> f)));
          ratings =
            (case stopped of
               None \<Rightarrow> feedbackRatings response
             | Some c \<Rightarrow>
                 (case safetyRatings c of None \<Rightarrow> feedbackRatings response | Some r \<Rightarrow> Some r))
      in if truthy_str reason
         then GenerationFailed toolName (case reason of None \<Rightarrow> [] | Some r \<Rightarrow> r)
                # (case ratings of None \<Rightarrow> [] | Some r \<Rightarrow> [SafetyRatings r])
         else [ResponseStructure toolName])"

definition no_content_error :: "string \<Rightarrow> js_error" where
  \<comment> \<open>the error of line 146\<close>
  "no_content_error toolName = Error (''No cheatsheet content generated for '' @ toolName @ ''.'')"

definition process_response :: "response \<Rightarrow> string \<Rightarrow> string action" where
  \<comment> \<open>lines 115 to 158\<close>
  "process_response response toolName w =
     (case (case response_text response of
              Inr t \<Rightarrow> (t, w)
            | Inl e \<Rightarrow> (candidate_text response, report [TextUnavailable toolName] w)) of
        (combinedCheatsheetText, w1) \<Rightarrow>
          if combinedCheatsheetText = [] \<or> trim combinedCheatsheetText = [] then
            (Inl (no_content_error toolName), report (no_content_lines response toolName) w1)
          else
            (Inr combinedCheatsheetText,
             if \<not> startsWith (trim combinedCheatsheetText) ''## Introduction for the LLM Agent''
             then report [UnexpectedStart toolName] w1 else w1))"

definition api_error_lines :: "js_error \<Rightarrow> log_line list" where
  \<comment> \<open>lines 162 to 168\<close>
  "api_error_lines error =
     (case (case error of ApiError m fb \<Rightarrow> fb | _ \<Rightarrow> None) of
        Some fb \<Rightarrow> [PromptFeedback fb]
      | None \<Rightarrow>
          if str_includes (message error) ''SAFETY'' then [SafetyIssue]
          else if str_includes (message error) ''token'' then [TokenLimitIssue]
          else [])"

definition gemini_failed :: "string \<Rightarrow> js_error \<Rightarrow> js_error" where
  \<comment> \<open>the error of line 170, made from the message of the error caught\<close>
  "gemini_failed toolName error =
     Error (''Gemini API failed for '' @ toolName @ '': '' @ message error)"

definition generateCheatsheetWithGemini :: "env \<Rightarrow> string \<Rightarrow> string \<Rightarrow> string action" where
  \<comment> \<open>lines 96 to 172: the request, the reading of the response, and the \<^verbatim>\<open>catch\<close> that
      wraps every error of the two\<close>
  "generateCheatsheetWithGemini env filesToPromptOutput toolName w =
     (let w0 = w\<lparr>requests := requests w @ [(filesToPromptOutput, toolName)]\<rparr> in
      case (case generateContent env w filesToPromptOutput toolName of
              Inl e \<Rightarrow> (Inl e, w0)
            | Inr response \<Rightarrow> process_response response toolName w0) of
        (Inr text, w1) \<Rightarrow> (Inr text, w1)
      | (Inl error, w1) \<Rightarrow>
          (Inl (gemini_failed toolName error),
           report (GeminiError toolName (message error) # api_error_lines error) w1))"

definition saveCheatsheet :: "env \<Rightarrow> string \<Rightarrow> string \<Rightarrow> unit action" where
  \<comment> \<open>lines 174 to 191\<close>
  "saveCheatsheet env content projectName w =
     (let target = fullCheatsheetPath projectName in
      case (case mkdir env CONTAINER_OUTPUT_DIR w of
              (Inl e, w1) \<Rightarrow> (Inl e, w1)
            | (Inr u, w1) \<Rightarrow>
                (case writeFileSync env w1 target content of
                   Some e \<Rightarrow> (Inl e, w1)
                 | None \<Rightarrow>
                     (Inr (), w1\<lparr>disk := insert target (disk w1),
                                 written := written w1 @ [(target, content)]\<rparr>))) of
        (Inr u, w2) \<Rightarrow> (Inr (), w2)
      | (Inl err, w2) \<Rightarrow>
          (Inl (Error (''Failed to save cheatsheet for '' @ projectName @ '': '' @ message err)),
           report (SaveError target (message err)
                   # (if code err = Some ''EACCES'' then [PermissionHint] else [])) w2))"

section \<open>The pipeline for one source\<close>

definition template_literal :: "jsval \<Rightarrow> unit action" where
  \<comment> \<open>a progress line that prints the value in a template literal\<close>
  "template_literal v w =
     (if toString_throws v then (Inl (TypeError ''Cannot convert object to primitive value''), w)
      else (Inr (), w))"

definition join_docs_path :: "filepath \<Rightarrow> jsval \<Rightarrow> filepath action" where
  \<comment> \<open>line 217: \<^verbatim>\<open>path.join\<close> refuses an argument that is not a string\<close>
  "join_docs_path repoPath currentDocsDir w =
     (case currentDocsDir of
        JStr d \<Rightarrow> (Inr (path_join [repoPath, d]), w)
      | _ \<Rightarrow> (Inl (TypeError ''The paths[1] argument must be of type string''), w))"

definition check_docs_path :: "filepath \<Rightarrow> jsval \<Rightarrow> unit action" where
  \<comment> \<open>lines 219 to 221\<close>
  "check_docs_path fullDocsPath currentDocsDir w =
     (if fullDocsPath \<notin> disk w then
        (Inl (Error (''Documentation directory not found at specified path: '' @ fullDocsPath
                     @ '' (Relative path: ''
                     @ (case currentDocsDir of JStr d \<Rightarrow> d | _ \<Rightarrow> []) @ '')'')), w)
      else (Inr (), w))"

definition run_files_to_prompt :: "env \<Rightarrow> filepath \<Rightarrow> string \<Rightarrow> string action" where
  \<comment> \<open>lines 226 to 237: the version probe, the extraction, and the \<^verbatim>\<open>catch\<close> that prints a
      hint and throws the error again\<close>
  "run_files_to_prompt env fullDocsPath currentProjectName w =
     (let probe = [JStr ''files-to-prompt'', JStr ''--version''];
          w1 = w\<lparr>spawned := spawned w @ [probe]\<rparr> in
      case (case spawnSync env w probe of
              Inl e \<Rightarrow> (Inl e, w1)
            | Inr r \<Rightarrow>
                runCommand env ''files-to-prompt'' [JStr fullDocsPath]
                  (''files-to-prompt execution failed for '' @ currentProjectName)
                  (w1\<lparr>disk := disk_after r\<rparr>)) of
        (Inr out, w2) \<Rightarrow> (Inr out, w2)
      | (Inl e, w2) \<Rightarrow>
          (Inl e,
           if str_includes (message e) ''ENOENT'' \<or> str_includes (message e) ''files-to-prompt''
           then report [ToolNotFound] w2 else w2))"

definition no_output_error :: "string \<Rightarrow> jsval \<Rightarrow> js_error" where
  \<comment> \<open>the error of line 241\<close>
  "no_output_error currentProjectName currentDocsDir =
     Error (''files-to-prompt did not produce any output for '' @ currentProjectName
            @ ''. Check DOCS_DIR ('' @ [CHR 0x27]
            @ (case currentDocsDir of JStr d \<Rightarrow> d | _ \<Rightarrow> [])
            @ [CHR 0x27] @ '') and file contents.'')"

definition check_output :: "string \<Rightarrow> string \<Rightarrow> jsval \<Rightarrow> unit action" where
  \<comment> \<open>lines 240 to 242\<close>
  "check_output filesToPromptOutput currentProjectName currentDocsDir w =
     (if filesToPromptOutput = [] \<or> length (trim filesToPromptOutput) = 0
      then (Inl (no_output_error currentProjectName currentDocsDir), w)
      else (Inr (), w))"

definition extract_documentation :: "env \<Rightarrow> string \<Rightarrow> jsval \<Rightarrow> jsval \<Rightarrow> string action" where
  \<comment> \<open>the first part of the \<^verbatim>\<open>try\<close> block of \<^verbatim>\<open>processSource\<close>, lines 202 to 237: the
      workspace, the clone, the documentation path and the extraction\<close>
  "extract_documentation env currentProjectName currentRepoUrl currentDocsDir w =
     and_then (mkdir env (tempRepoPath currentProjectName)) (\<lambda>u.
     and_then (template_literal currentRepoUrl) (\<lambda>u.
     and_then (runCommand env ''git''
                 [JStr ''clone'', JStr ''--depth=1'', currentRepoUrl,
                  JStr (tempRepoPath currentProjectName)]
                 (''Failed to clone repository for '' @ currentProjectName)) (\<lambda>cloned.
     and_then (join_docs_path (tempRepoPath currentProjectName) currentDocsDir) (\<lambda>fullDocsPath.
     and_then (check_docs_path fullDocsPath currentDocsDir) (\<lambda>u.
     run_files_to_prompt env fullDocsPath currentProjectName)))))
       (remove_dir env (tempRepoPath currentProjectName) CleanFailed w)"

definition processSource_try :: "env \<Rightarrow> string \<Rightarrow> jsval \<Rightarrow> jsval \<Rightarrow> unit action" where
  \<comment> \<open>the whole \<^verbatim>\<open>try\<close> block, lines 202 to 252\<close>
  "processSource_try env currentProjectName currentRepoUrl currentDocsDir =
     and_then (extract_documentation env currentProjectName currentRepoUrl currentDocsDir)
       (\<lambda>filesToPromptOutput.
     and_then (check_output filesToPromptOutput currentProjectName currentDocsDir) (\<lambda>u.
     and_then (generateCheatsheetWithGemini env filesToPromptOutput currentProjectName)
       (\<lambda>cheatsheetContent.
     saveCheatsheet env cheatsheetContent currentProjectName)))"

definition processSource_catch :: "string \<Rightarrow> (js_error + unit) \<times> world \<Rightarrow> world" where
  \<comment> \<open>the \<^verbatim>\<open>catch\<close> block, lines 254 to 257\<close>
  "processSource_catch currentProjectName r =
     (case r of
        (Inl error, w) \<Rightarrow> report [SourceFailed currentProjectName (message error)] w
      | (Inr u, w) \<Rightarrow> w)"

definition entered :: "source \<Rightarrow> world \<Rightarrow> world" where
  \<comment> \<open>the call of \<^verbatim>\<open>processSource\<close> with the source is recorded\<close>
  "entered sourceConfig w = w\<lparr>invoked := invoked w @ [sourceConfig]\<rparr>"

definition processSource_caught :: "env \<Rightarrow> string \<Rightarrow> source \<Rightarrow> world \<Rightarrow> world" where
  \<comment> \<open>the \<^verbatim>\<open>try\<close> and \<^verbatim>\<open>catch\<close> blocks together: the world in which the \<^verbatim>\<open>finally\<close>
      block starts\<close>
  "processSource_caught env currentProjectName sourceConfig w =
     processSource_catch currentProjectName
       (processSource_try env currentProjectName (repo sourceConfig) (path sourceConfig) w)"

definition processSource :: "env \<Rightarrow> source \<Rightarrow> unit action" where
  \<comment> \<open>lines 194 to 269. The result is \<^const>\<open>Inr\<close> when the promise is fulfilled and
      \<^const>\<open>Inl\<close> when it is rejected. The progress line of line 197 and \<^verbatim>\<open>toLowerCase\<close>
      of line 199 stand before the \<^verbatim>\<open>try\<close>.\<close>
  "processSource env sourceConfig w =
     (case name sourceConfig of
        JStr currentProjectName \<Rightarrow>
          (Inr (),
           remove_dir env (tempRepoPath currentProjectName) CleanFailedAfter
             (processSource_caught env currentProjectName sourceConfig (entered sourceConfig w)))
      | other \<Rightarrow>
          (Inl (TypeError (if toString_throws other
                           then ''Cannot convert object to primitive value''
                           else ''currentProjectName.toLowerCase is not a function'')),
           entered sourceConfig w))"

section \<open>Loading the sources and running the batch\<close>

record loaded =
  sourcesToProcess :: "source list"
  hasErrors :: bool

definition parse_source_file ::
    "env \<Rightarrow> filepath \<Rightarrow> filepath set \<Rightarrow> js_error + jsval \<times> jsval \<times> jsval" where
  \<comment> \<open>lines 286 to 289: the file is read and parsed, and the three fields are read in the
      order of the test, \<^verbatim>\<open>repo\<close>, \<^verbatim>\<open>name\<close>, \<^verbatim>\<open>path\<close>\<close>
  "parse_source_file env file d =
     (case readFileSync env d file of
        Inl e \<Rightarrow> Inl e
      | Inr sourceContent \<Rightarrow>
          (case JSON_parse env sourceContent of
             Inl e \<Rightarrow> Inl e
           | Inr sourceData \<Rightarrow>
               (case get_property sourceData ''repo'' of
                  Inl e \<Rightarrow> Inl e
                | Inr r \<Rightarrow>
                    (case get_property sourceData ''name'' of
                       Inl e \<Rightarrow> Inl e
                     | Inr n \<Rightarrow>
                         (case get_property sourceData ''path'' of
                            Inl e \<Rightarrow> Inl e
                          | Inr p \<Rightarrow> Inr (r, n, p))))))"

definition load_source_file ::
    "env \<Rightarrow> jsval \<Rightarrow> loaded \<times> world \<Rightarrow> (js_error + loaded) \<times> world" where
  \<comment> \<open>the body of the loop of lines 278 to 309. \<^verbatim>\<open>startsWith\<close> of line 279 stands outside
      the \<^verbatim>\<open>try\<close> and exists on strings only: on any other argument it raises a TypeError,
      the result \<^const>\<open>Inl\<close>. The source is pushed before the progress line of line 296
      prints its name, so an exception of that line comes after the push.\<close>
  "load_source_file env sourceFileArg st =
     (case st of (acc, w) \<Rightarrow>
       (case sourceFileArg of
          JStr a \<Rightarrow>
            (let file = sourceFilePath (workdir env) a in
             if file \<in> disk w then
               (case parse_source_file env file (disk w) of
                  Inl error \<Rightarrow>
                    (Inr (acc\<lparr>hasErrors := True\<rparr>), report [LoadFailed file (message error)] w)
                | Inr (r, n, p) \<Rightarrow>
                    if truthy r \<and> truthy n \<and> truthy p then
                      (let pushed = acc\<lparr>sourcesToProcess := sourcesToProcess acc
                               @ [\<lparr>name = n, repo = r, path = p, sourceOrigin = basename file\<rparr>]\<rparr>
                       in if toString_throws n
                          then (Inr (pushed\<lparr>hasErrors := True\<rparr>),
                                report [LoadFailed file ''Cannot convert object to primitive value''] w)
                          else (Inr pushed, w))
                    else (Inr (acc\<lparr>hasErrors := True\<rparr>), report [MissingKeys file] w))
             else (Inr (acc\<lparr>hasErrors := True\<rparr>), report [NotFound file] w))
        | other \<Rightarrow> (Inl (TypeError ''sourceFileArg.startsWith is not a function''), w)))"

fun load_all :: "env \<Rightarrow> jsval list \<Rightarrow> loaded \<times> world \<Rightarrow> (js_error + loaded) \<times> world" where
  \<comment> \<open>the loop of lines 278 to 309: an exception of the body ends it\<close>
  "load_all env [] st = (Inr (fst st), snd st)"
| "load_all env (a # rest) st =
     (case load_source_file env a st of
        (Inl e, w1) \<Rightarrow> (Inl e, w1)
      | (Inr acc1, w1) \<Rightarrow> load_all env rest (acc1, w1))"

definition load_from_environment :: "env \<Rightarrow> source option" where
  \<comment> \<open>lines 319 to 330\<close>
  "load_from_environment env =
     (if truthy_str (REPO_URL env) \<and> truthy_str (PROJECT_NAME env) \<and> truthy_str (DOCS_DIR env)
      then Some \<lparr>name = JStr (case PROJECT_NAME env of None \<Rightarrow> [] | Some v \<Rightarrow> v),
                 repo = JStr (case REPO_URL env of None \<Rightarrow> [] | Some v \<Rightarrow> v),
                 path = JStr (case DOCS_DIR env of None \<Rightarrow> [] | Some v \<Rightarrow> v),
                 sourceOrigin = ''environment variables''\<rparr>
      else None)"

datatype 'a completion = Exited nat | Raised js_error | Returned 'a

definition load_sources :: "env \<Rightarrow> world \<Rightarrow> loaded completion \<times> world" where
  \<comment> \<open>lines 272 to 338: \<^const>\<open>Exited\<close> is \<^verbatim>\<open>process.exit\<close> with its status, \<^const>\<open>Raised\<close> an
      exception that leaves \<^verbatim>\<open>run\<close>\<close>
  "load_sources env w =
     (if length (positional env) > 0 then
        (case load_all env (positional env) (\<lparr>sourcesToProcess = [], hasErrors = False\<rparr>, w) of
           (Inl e, w1) \<Rightarrow> (Raised e, w1)
         | (Inr acc, w1) \<Rightarrow>
             if length (sourcesToProcess acc) = 0 then (Exited 1, report [NoValidSources] w1)
             else (Returned acc, w1))
      else
        (case load_from_environment env of
           Some s \<Rightarrow> (Returned \<lparr>sourcesToProcess = [s], hasErrors = False\<rparr>, w)
         | None \<Rightarrow> (Exited 1, report [EnvNotSet] w)))"

record tally =
  successCount :: nat
  failureCount :: nat

fun process_all :: "env \<Rightarrow> source list \<Rightarrow> tally \<Rightarrow> world \<Rightarrow> tally \<times> world" where
  \<comment> \<open>the loop of lines 345 to 354\<close>
  "process_all env [] t w = (t, w)"
| "process_all env (s # rest) t w =
     (case processSource env s w of
        (Inr u, w1) \<Rightarrow> process_all env rest (t\<lparr>successCount := successCount t + 1\<rparr>) w1
      | (Inl error, w1) \<Rightarrow> process_all env rest (t\<lparr>failureCount := failureCount t + 1\<rparr>) w1)"

record summary =
  attempted :: nat
  succeeded :: nat
  failed :: nat

definition run :: "env \<Rightarrow> world \<Rightarrow> summary completion \<times> world" where
  \<comment> \<open>lines 271 to 370; the result holds the three numbers of the final summary\<close>
  "run env w =
     (case load_sources env w of
        (Exited status, w1) \<Rightarrow> (Exited status, w1)
      | (Raised e, w1) \<Rightarrow> (Raised e, w1)
      | (Returned acc, w1) \<Rightarrow>
          (case process_all env (sourcesToProcess acc) \<lparr>successCount = 0, failureCount = 0\<rparr> w1 of
             (t, w2) \<Rightarrow>
               (Returned \<lparr>attempted = length (sourcesToProcess acc),
                          succeeded = successCount t, failed = failureCount t\<rparr>,
                if hasErrors acc \<or> failureCount t > 0 then report [SomeFailed] w2 else w2)))"

definition main :: "env \<Rightarrow> world \<Rightarrow> nat \<times> world" where
  \<comment> \<open>the module: the check of the API key (lines 28 to 31), then \<^verbatim>\<open>run()\<close>; the result is
      the exit status of the process, 0 when \<^verbatim>\<open>run\<close> returns. Nothing handles a rejection
      of the promise of \<^verbatim>\<open>run\<close> (line 373): the runtime ends the process with status 1.\<close>
  "main env w =
     (if \<not> truthy_str (GEMINI_API_KEY env) then (1, report [MissingApiKey] w)
      else (case run env w of
              (Exited status, w1) \<Rightarrow> (status, w1)
            | (Raised e, w1) \<Rightarrow> (1, w1)
            | (Returned s, w1) \<Rightarrow> (0, w1)))"

section \<open>Example environments\<close>

text \<open>
  A container with one configuration file, \<^verbatim>\<open>/app/sources/demo.json\<close>, for the project
  \<^verbatim>\<open>demo\<close>. In \<open>failing_clone\<close> every command exits with status 128 and the generation
  service is unreachable. In \<open>working_tools\<close> every command succeeds, leaves the
  documentation directory on disk and prints the text given for it.
\<close>

definition demo_source :: source where
  "demo_source = \<lparr>name = JStr ''demo'', repo = JStr ''https://example.org/demo.git'',
                   path = JStr ''docs'', sourceOrigin = ''demo.json''\<rparr>"

definition start :: world where
  "start = \<lparr>disk = {''/app/sources/demo.json''}, written = [], spawned = [], requests = [],
             invoked = [], console = []\<rparr>"

definition failing_clone :: env where
  "failing_clone =
     \<lparr>workdir = ''/app'', positional = [JStr ''demo.json''], GEMINI_API_KEY = Some ''secret'',
      REPO_URL = None, PROJECT_NAME = None, DOCS_DIR = None,
      rmSync = (\<lambda>w p. None),
      mkdirSync = (\<lambda>w p. None),
      writeFileSync = (\<lambda>w p c. None),
      readFileSync = (\<lambda>d p. Inr ''demo.json''),
      JSON_parse = (\<lambda>t. Inr (JObj [(''name'', JStr ''demo''),
                                    (''repo'', JStr ''https://example.org/demo.git''),
                                    (''path'', JStr ''docs'')])),
      spawnSync = (\<lambda>w command.
         Inr \<lparr>success = False, stdout = [], stderr = ''fatal: repository not found'',
              exitCode = ''128'', disk_after = disk w\<rparr>),
      generateContent = (\<lambda>w docs tool. Inl (ApiError ''fetch failed'' None))\<rparr>"

definition working_tools :: "string \<Rightarrow> env" where
  "working_tools out =
     failing_clone\<lparr>spawnSync := (\<lambda>w command.
       Inr \<lparr>success = True, stdout = out, stderr = [], exitCode = ''0'',
            disk_after = insert ''repo_temp/demo/docs'' (disk w)\<rparr>)\<rparr>"

definition stuck_workspace :: env where
  \<comment> \<open>as \<open>failing_clone\<close>, and no directory can be removed\<close>
  "stuck_workspace =
     failing_clone\<lparr>rmSync := (\<lambda>w p. Some (SystemError ''EACCES'' ''permission denied''))\<rparr>"

definition numeric_name :: env where
  \<comment> \<open>as \<open>failing_clone\<close>, with the number 5 as the name in the configuration file\<close>
  "numeric_name =
     failing_clone\<lparr>JSON_parse := (\<lambda>t. Inr (JObj [(''name'', JNum 5),
                                    (''repo'', JStr ''https://example.org/demo.git''),
                                    (''path'', JStr ''docs'')]))\<rparr>"

definition empty_name :: env where
  \<comment> \<open>as \<open>failing_clone\<close>, with the empty string as the name in the configuration file\<close>
  "empty_name =
     failing_clone\<lparr>JSON_parse := (\<lambda>t. Inr (JObj [(''name'', JStr []),
                                    (''repo'', JStr ''https://example.org/demo.git''),
                                    (''path'', JStr ''docs'')]))\<rparr>"

definition empty_variable :: env where
  \<comment> \<open>no arguments, and \<^verbatim>\<open>REPO_URL\<close> set to the empty string, as the image sets it\<close>
  "empty_variable =
     failing_clone\<lparr>positional := [], REPO_URL := Some [], PROJECT_NAME := Some ''demo'',
                    DOCS_DIR := Some ''docs''\<rparr>"





definition answering :: "response \<Rightarrow> env" where
  "answering r = (working_tools ''# Demo documentation'')\<lparr>generateContent := (\<lambda>w docs tool. Inr r)\<rparr>"

section \<open>Notions the claims speak of\<close>

definition blank :: "string \<Rightarrow> bool" where
  \<comment> \<open>empty, or white space only\<close>
  "blank s = list_all is_space s"


definition is_string :: "jsval \<Rightarrow> bool" where
  "is_string v = (case v of JStr a \<Rightarrow> True | _ \<Rightarrow> False)"

definition valid_source :: "env \<Rightarrow> filepath set \<Rightarrow> string \<Rightarrow> source option" where
  \<comment> \<open>the source a configuration file describes, in the words of the specification: the
      file exists, it can be read and parsed as a structured record, and its fields
      \<^verbatim>\<open>name\<close>, \<^verbatim>\<open>repo\<close> and \<^verbatim>\<open>path\<close> are there and truthy\<close>
  "valid_source env d a =
     (if sourceFilePath (workdir env) a \<in> d then
        (case readFileSync env d (sourceFilePath (workdir env) a) of
           Inl e \<Rightarrow> None
         | Inr content \<Rightarrow>
             (case JSON_parse env content of
                Inr (JObj kvs) \<Rightarrow>
                  (case (map_of kvs ''name'', map_of kvs ''repo'', map_of kvs ''path'') of
                     (Some n, Some r, Some p) \<Rightarrow>
                       if truthy n \<and> truthy r \<and> truthy p
                       then Some \<lparr>name = n, repo = r, path = p,
                                  sourceOrigin = basename (sourceFilePath (workdir env) a)\<rparr>
                       else None
                   | _ \<Rightarrow> None)
              | _ \<Rightarrow> None))
      else None)"

definition sources_of :: "env \<Rightarrow> filepath set \<Rightarrow> jsval list \<Rightarrow> source list" where
  \<comment> \<open>the valid source of each argument that has one, in the order of the arguments\<close>
  "sources_of env d args =
     concat (map (\<lambda>v. case v of
                         JStr a \<Rightarrow> (case valid_source env d a of None \<Rightarrow> [] | Some s \<Rightarrow> [s])
                       | _ \<Rightarrow> [])
                 args)"

definition resolvable :: "env \<Rightarrow> world \<Rightarrow> source list" where
  \<comment> \<open>the valid sources that can be resolved, in the words of the specification: with
      arguments, those of the arguments; without arguments, the source of the three
      environment variables when each is set and not empty\<close>
  "resolvable env w =
     (if positional env \<noteq> [] then sources_of env (disk w) (positional env)
      else
        (case (REPO_URL env, PROJECT_NAME env, DOCS_DIR env) of
           (Some r, Some n, Some d) \<Rightarrow>
             if r \<noteq> [] \<and> n \<noteq> [] \<and> d \<noteq> []
             then [\<lparr>name = JStr n, repo = JStr r, path = JStr d,
                    sourceOrigin = ''environment variables''\<rparr>]
             else []
         | _ \<Rightarrow> []))"

section \<open>Frames\<close>

text \<open>
  An action keeps a component of the world when no run of it changes that component.
\<close>

definition keeps :: "(world \<Rightarrow> 'b) \<Rightarrow> 'a action \<Rightarrow> bool" where
  "keeps f m = (\<forall>w. f (snd (m w)) = f w)"

section \<open>The naming rules in the words of the specification\<close>

text \<open>
  The maximal runs of a string: it is cut where membership in \<^verbatim>\<open>[a-z0-9]\<close> changes, and
  each piece is marked with whether its characters are in the class. Collapsing keeps
  the pieces inside the class and writes one underscore for each piece outside.
\<close>

fun runs :: "string \<Rightarrow> (bool \<times> string) list" where
  "runs [] = []"
| "runs (c # cs) =
     (case runs cs of
        [] \<Rightarrow> [(is_lower_alnum c, [c])]
      | (b, r) # rest \<Rightarrow>
          if b = is_lower_alnum c then (b, c # r) # rest
          else (is_lower_alnum c, [c]) # (b, r) # rest)"

definition collapse_runs :: "string \<Rightarrow> string" where
  "collapse_runs s = concat (map (\<lambda>(kept, r). if kept then r else ''_'') (runs s))"

definition name_char :: "char \<Rightarrow> bool" where
  "name_char c = (is_lower_alnum c \<or> c = CHR ''_'')"

section \<open>Output file names\<close>

lemma runs_concat: "concat (map snd (runs s)) = s"
  by (induction s) (auto split: list.splits)

lemma runs_head: "\<exists>r rest. runs (c # cs) = (is_lower_alnum c, c # r) # rest"
  by (cases "runs cs") (auto)

lemma runs_uniform: "(b, r) \<in> set (runs s) \<Longrightarrow> r \<noteq> [] \<and> (\<forall>c \<in> set r. is_lower_alnum c = b)"
proof (induction s arbitrary: b r)
  case Nil
  then show ?case by simp
next
  case (Cons c cs)
  show ?case
  proof (cases "runs cs")
    case Nil
    with Cons.prems show ?thesis by simp
  next
    case (Cons br rest)
    obtain b' r' where br: "br = (b', r')" by (cases br)
    have head: "r' \<noteq> [] \<and> (\<forall>c \<in> set r'. is_lower_alnum c = b')"
      using Cons.IH[of b' r'] Cons br by simp
    have tail: "(b, r) \<in> set rest \<Longrightarrow> r \<noteq> [] \<and> (\<forall>c \<in> set r. is_lower_alnum c = b)"
      using Cons.IH[of b r] Cons by simp
    show ?thesis
    proof (cases "b' = is_lower_alnum c")
      case True
      with Cons.prems Cons br have "(b, r) = (b', c # r') \<or> (b, r) \<in> set rest" by simp
      with head tail True show ?thesis by auto
    next
      case False
      with Cons.prems Cons br
      have "(b, r) = (is_lower_alnum c, [c]) \<or> (b, r) = (b', r') \<or> (b, r) \<in> set rest" by simp
      with head tail show ?thesis by auto
    qed
  qed
qed

lemma runs_maximal: "i + 1 < length (runs s) \<Longrightarrow> fst (runs s ! i) \<noteq> fst (runs s ! (i + 1))"
proof (induction s arbitrary: i)
  case Nil
  then show ?case by simp
next
  case (Cons c cs)
  show ?case
  proof (cases "runs cs")
    case Nil
    with Cons.prems show ?thesis by simp
  next
    case (Cons br rest)
    obtain b r where br: "br = (b, r)" by (cases br)
    show ?thesis
    proof (cases "b = is_lower_alnum c")
      case True
      with Cons.prems Cons.IH[of i] Cons br show ?thesis
        by (cases i) (auto)
    next
      case False
      with Cons.prems Cons.IH[of "i - 1"] Cons br show ?thesis
        by (cases i) (auto)
    qed
  qed
qed

lemma collapse_kept: "is_lower_alnum c \<Longrightarrow> collapse_runs (c # cs) = c # collapse_runs cs"
  by (cases "runs cs") (auto simp: collapse_runs_def)

lemma collapse_dropped:
  "\<not> is_lower_alnum c \<Longrightarrow>
   collapse_runs (c # cs) = CHR ''_'' # collapse_runs (dropWhile (\<lambda>d. \<not> is_lower_alnum d) cs)"
proof (induction cs arbitrary: c)
  case Nil
  then show ?case by (simp add: collapse_runs_def)
next
  case (Cons d ds)
  obtain r rest where h: "runs (d # ds) = (is_lower_alnum d, d # r) # rest"
    using runs_head by blast
  show ?case
  proof (cases "is_lower_alnum d")
    case True
    with Cons.prems h show ?thesis
      by (simp add: collapse_runs_def del: runs.simps(2) add: runs.simps(2)[of c "d # ds"])
  next
    case False
    have "collapse_runs (c # d # ds) = collapse_runs (d # ds)"
      using Cons.prems False h
      by (simp add: collapse_runs_def del: runs.simps(2) add: runs.simps(2)[of c "d # ds"])
    with Cons.IH[OF False] False show ?thesis by simp
  qed
qed

lemma replace_runs_collapse: "replace_runs s = collapse_runs s"
proof (induction s rule: replace_runs.induct)
  case 1
  show ?case by (simp add: collapse_runs_def)
next
  case (2 c cs)
  then show ?case by (simp add: collapse_kept collapse_dropped)
qed

text \<open>
  Claim C8. The output file name is a function of the project name alone: the name in
  lower case, each maximal run of characters outside \<^verbatim>\<open>[a-z0-9]\<close> replaced by one
  underscore, followed by \<^verbatim>\<open>_cheatsheet.md\<close>; the name \<^verbatim>\<open>My Tool!\<close> gives
  \<^verbatim>\<open>my_tool__cheatsheet.md\<close>.
\<close>

theorem output_filename:
  "cheatsheetFilename projectName = collapse_runs (toLowerCase projectName) @ ''_cheatsheet.md''
   \<and> cheatsheetFilename ''My Tool!'' = ''my_tool__cheatsheet.md''"
  by (simp add: cheatsheetFilename_def replace_runs_collapse[symmetric] toLowerCase_def lower_char_def is_lower_alnum_def)

section \<open>Workspace paths\<close>

lemma replace_each_chars: "list_all name_char (replace_each s)"
  by (induction s) (auto simp: replace_each_def name_char_def)

lemma name_char_not_special: "name_char c \<Longrightarrow> c \<noteq> CHR ''/'' \<and> c \<noteq> CHR ''.''"
  by (auto simp: name_char_def is_lower_alnum_def)

lemma segments_plain: "list_all name_char s \<Longrightarrow> segments s = [s]"
  by (induction s) (auto dest: name_char_not_special)

lemma segments_append_slash:
  "list_all name_char s \<Longrightarrow> segments (s @ CHR ''/'' # t) = s # segments t"
  by (induction s) (auto dest: name_char_not_special)

lemma plain_not_dots: "list_all name_char s \<Longrightarrow> s \<noteq> ''.'' \<and> s \<noteq> ''..''"
  by (auto dest: name_char_not_special)

lemma plain_last: "list_all name_char s \<Longrightarrow> s \<noteq> [] \<Longrightarrow> last s \<noteq> CHR ''/''"
  by (induction s) (auto dest: name_char_not_special)

lemma normalize_kept:
  "s \<noteq> [] \<Longrightarrow> s \<noteq> ''.'' \<Longrightarrow> s \<noteq> ''..'' \<Longrightarrow>
   normalizeString True [] [''.'', ''repo_temp'', s] = [''repo_temp'', s]"
  by simp

lemma join_temp_dir:
  assumes "list_all name_char s"
  shows "path_join [TEMP_REPO_DIR, s] = (if s = [] then ''repo_temp'' else ''repo_temp/'' @ s)"
proof (cases "s = []")
  case True
  then show ?thesis
    by (simp add: path_join_def TEMP_REPO_DIR_def join_with_def normalize_def)
next
  case False
  define p where "p = ''./repo_temp/'' @ s"
  have seg: "segments p = [''.'', ''repo_temp'', s]"
    unfolding p_def using segments_plain[OF assms] by simp
  have l: "last p \<noteq> CHR ''/''"
    unfolding p_def using plain_last[OF assms False] False by simp
  have h: "hd p \<noteq> CHR ''/''" and ne: "p \<noteq> []"
    unfolding p_def by simp_all
  have n: "normalizeString True [] (segments p) = [''repo_temp'', s]"
    unfolding seg using normalize_kept[OF False] plain_not_dots[OF assms] by blast
  have "normalize p = ''repo_temp/'' @ s"
    unfolding normalize_def Let_def using h l ne n by (simp add: join_with_def)
  moreover have "path_join [TEMP_REPO_DIR, s] = normalize p"
    unfolding p_def using False by (simp add: path_join_def TEMP_REPO_DIR_def join_with_def)
  ultimately show ?thesis using False by simp
qed

lemma tempRepoPath_eq:
  "tempRepoPath n =
     (if n = [] then ''repo_temp'' else ''repo_temp/'' @ replace_each (toLowerCase n))"
  using join_temp_dir[OF replace_each_chars, of "toLowerCase n"]
  by (simp add: tempRepoPath_def replace_each_def toLowerCase_def)

lemma classes_disjoint:
  "list_all (\<lambda>c. c \<notin> set ''ABCDEFGHIJKLMNOPQRSTUVWXYZ'') ''abcdefghijklmnopqrstuvwxyz0123456789''"
  by simp

lemma lower_char_other: "c \<notin> set ''ABCDEFGHIJKLMNOPQRSTUVWXYZ'' \<Longrightarrow> lower_char c = c"
  by (simp add: lower_char_def)

lemma lower_char_fixed: "is_lower_alnum c \<Longrightarrow> lower_char c = c"
  using classes_disjoint unfolding list_all_iff is_lower_alnum_def
  by (blast intro: lower_char_other)

lemma sanitize_fixed: "list_all is_lower_alnum s \<Longrightarrow> replace_each (toLowerCase s) = s"
  by (induction s) (auto simp: replace_each_def toLowerCase_def lower_char_fixed)

text \<open>
  Claim C7, as amended. The workspace path is a function of the project name: the
  directory \<^verbatim>\<open>repo_temp\<close> and below it the name in lower case with every character outside
  \<^verbatim>\<open>[a-z0-9]\<close> replaced by an underscore. Two names share a workspace exactly when these
  sanitized forms are equal; on names made of characters of \<^verbatim>\<open>[a-z0-9]\<close> only, the path
  is injective.
\<close>

theorem workspace_path_collisions:
  "(tempRepoPath a = tempRepoPath b
      \<longleftrightarrow> replace_each (toLowerCase a) = replace_each (toLowerCase b))
   \<and> (list_all is_lower_alnum a \<and> list_all is_lower_alnum b \<and> tempRepoPath a = tempRepoPath b
      \<longrightarrow> a = b)"
proof -
  have len: "\<And>x. (replace_each (toLowerCase x) = []) = (x = [])"
    by (simp add: replace_each_def toLowerCase_def)
  have first: "tempRepoPath a = tempRepoPath b
      \<longleftrightarrow> replace_each (toLowerCase a) = replace_each (toLowerCase b)"
    using len[of a] len[of b] by (auto simp: tempRepoPath_eq)
  show ?thesis using first by (auto simp: sanitize_fixed)
qed

text \<open>
  The theorem at work: \<^verbatim>\<open>bun\<close> and \<^verbatim>\<open>vite\<close> get different workspaces, \<^verbatim>\<open>Bun\<close> and \<^verbatim>\<open>bun\<close>
  the same one.
\<close>

theorem workspace_path_collisions_witness:
  "list_all is_lower_alnum ''bun'' \<and> list_all is_lower_alnum ''vite''
   \<and> tempRepoPath ''bun'' \<noteq> tempRepoPath ''vite''
   \<and> tempRepoPath ''Bun'' = tempRepoPath ''bun''"
  using workspace_path_collisions[of "''bun''" "''vite''"]
        workspace_path_collisions[of "''Bun''" "''bun''"]
  by (simp add: is_lower_alnum_def replace_each_def toLowerCase_def lower_char_def)

text \<open>
  Two different names with one workspace: the claim of C7 as stated fails.
\<close>

theorem workspace_path_not_injective:
  "''My Tool'' \<noteq> ''my-tool'' \<and> tempRepoPath ''My Tool'' = tempRepoPath ''my-tool''"
  by (simp add: tempRepoPath_eq replace_each_def toLowerCase_def lower_char_def is_lower_alnum_def)

section \<open>Configuration file paths\<close>

lemma sourceFilePath_cases:
  "sourceFilePath d a =
     (if a \<noteq> [] \<and> (hd a = CHR ''/'' \<or> hd a = CHR ''.'') then path_resolve d [a]
      else path_resolve d [''./sources'', a])"
  by (cases a) (simp_all add: sourceFilePath_def startsWith_def SOURCES_DIR_def)

text \<open>
  Claim C6. An argument that starts with a slash or a dot is resolved from the working
  directory; every other argument is resolved below the sources directory, also a
  relative path with a directory part such as \<^verbatim>\<open>sources/bun.json\<close>, the form the usage
  text of the program itself prints: it becomes \<^verbatim>\<open>/app/sources/sources/bun.json\<close>, where
  resolving it as it stands gives \<^verbatim>\<open>/app/sources/bun.json\<close>. A bare file name that starts
  with a dot is resolved from the working directory.
\<close>

theorem relative_path_below_sources_dir:
  "sourceFilePath ''/app'' ''sources/bun.json'' = ''/app/sources/sources/bun.json''
   \<and> path_resolve ''/app'' [''sources/bun.json''] = ''/app/sources/bun.json''
   \<and> sourceFilePath ''/app'' ''.bun.json'' = ''/app/.bun.json''"
  by (simp add: sourceFilePath_def startsWith_def path_resolve_def SOURCES_DIR_def join_with_def)

section \<open>What each step leaves unchanged\<close>

text \<open>
  The steps before the generation write no file, send no request and call no pipeline;
  the generation sends exactly one request; no step removes a line from the console.
\<close>

lemma keepsD: "keeps f m \<Longrightarrow> m w = (r, w') \<Longrightarrow> f w' = f w"
  by (auto simp: keeps_def dest: spec[of _ w])

lemma and_then_Inl: "m w = (Inl e, w') \<Longrightarrow> and_then m g w = (Inl e, w')"
  by (simp add: and_then_def)

lemma and_then_Inr: "m w = (Inr x, w') \<Longrightarrow> and_then m g w = g x w'"
  by (simp add: and_then_def)

lemma keeps_and_then: "keeps f m \<Longrightarrow> (\<And>x. keeps f (g x)) \<Longrightarrow> keeps f (and_then m g)"
  unfolding keeps_def and_then_def
proof (intro allI)
  fix w
  assume m: "\<forall>w. f (snd (m w)) = f w" and g: "\<And>x. \<forall>w. f (snd (g x w)) = f w"
  obtain r w' where mw: "m w = (r, w')" by (cases "m w")
  have fw: "f w' = f w" using m[rule_format, of w] mw by simp
  show "f (snd (case m w of (Inl e, w') \<Rightarrow> (Inl e, w') | (Inr x, w') \<Rightarrow> g x w')) = f w"
  proof (cases r)
    case (Inl e)
    with mw fw show ?thesis by simp
  next
    case (Inr x)
    with mw fw g[of x, rule_format, of w'] show ?thesis by simp
  qed
qed

lemma report_fields [simp]:
  "disk (report ls w) = disk w" "written (report ls w) = written w"
  "spawned (report ls w) = spawned w" "requests (report ls w) = requests w"
  "invoked (report ls w) = invoked w" "console (report ls w) = console w @ ls"
  by (simp_all add: report_def)

lemma remove_dir_fields [simp]:
  "written (remove_dir env p warn w) = written w"
  "spawned (remove_dir env p warn w) = spawned w"
  "requests (remove_dir env p warn w) = requests w"
  "invoked (remove_dir env p warn w) = invoked w"
  by (simp_all add: remove_dir_def split: option.splits)

lemma remove_dir_console: "\<exists>ls. console (remove_dir env p warn w) = console w @ ls"
  by (simp add: remove_dir_def split: option.splits)

lemma mkdir_keeps:
  "keeps written (mkdir env p)" "keeps requests (mkdir env p)" "keeps invoked (mkdir env p)"
  by (simp_all add: keeps_def mkdir_def split: option.splits)

lemma template_literal_keeps:
  "keeps written (template_literal v)" "keeps requests (template_literal v)"
  "keeps invoked (template_literal v)"
  by (simp_all add: keeps_def template_literal_def)

lemma runCommand_keeps:
  "keeps written (runCommand env c args m)" "keeps requests (runCommand env c args m)"
  "keeps invoked (runCommand env c args m)"
  by (simp_all add: keeps_def runCommand_def Let_def split: sum.splits)

lemma join_docs_path_keeps:
  "keeps written (join_docs_path p d)" "keeps requests (join_docs_path p d)"
  "keeps invoked (join_docs_path p d)"
  by (simp_all add: keeps_def join_docs_path_def split: jsval.splits)

lemma check_docs_path_keeps:
  "keeps written (check_docs_path p d)" "keeps requests (check_docs_path p d)"
  "keeps invoked (check_docs_path p d)"
  by (simp_all add: keeps_def check_docs_path_def)

lemma run_files_to_prompt_fields:
  "written (snd (run_files_to_prompt env p n w)) = written w
   \<and> requests (snd (run_files_to_prompt env p n w)) = requests w
   \<and> invoked (snd (run_files_to_prompt env p n w)) = invoked w"
proof (cases "spawnSync env w [JStr ''files-to-prompt'', JStr ''--version'']")
  case (Inl e)
  then show ?thesis by (simp add: run_files_to_prompt_def Let_def)
next
  case (Inr r)
  define w1 where "w1 = w\<lparr>spawned := spawned w @ [[JStr ''files-to-prompt'', JStr ''--version'']],
                             disk := disk_after r\<rparr>"
  obtain res w2 where rc: "runCommand env ''files-to-prompt'' [JStr p]
      (''files-to-prompt execution failed for '' @ n) w1 = (res, w2)"
    by (cases "runCommand env ''files-to-prompt'' [JStr p]
      (''files-to-prompt execution failed for '' @ n) w1")
  have "written w2 = written w \<and> requests w2 = requests w \<and> invoked w2 = invoked w"
    using keepsD[OF runCommand_keeps(1) rc] keepsD[OF runCommand_keeps(2) rc]
      keepsD[OF runCommand_keeps(3) rc] by (simp add: w1_def)
  with Inr rc show ?thesis
    by (cases res) (simp_all add: run_files_to_prompt_def Let_def w1_def)
qed

lemma run_files_to_prompt_keeps:
  "keeps written (run_files_to_prompt env p n)" "keeps requests (run_files_to_prompt env p n)"
  "keeps invoked (run_files_to_prompt env p n)"
  by (simp_all add: keeps_def run_files_to_prompt_fields)

lemma check_output_keeps:
  "keeps written (check_output t n d)" "keeps requests (check_output t n d)"
  "keeps invoked (check_output t n d)"
  by (simp_all add: keeps_def check_output_def)


lemmas step_keeps = mkdir_keeps template_literal_keeps runCommand_keeps join_docs_path_keeps
  check_docs_path_keeps run_files_to_prompt_keeps check_output_keeps

lemma extract_documentation_keeps:
  "keeps written (extract_documentation env n r d)"
  "keeps requests (extract_documentation env n r d)"
  "keeps invoked (extract_documentation env n r d)"
proof -
  let ?chain = "and_then (mkdir env (tempRepoPath n)) (\<lambda>u.
     and_then (template_literal r) (\<lambda>u.
     and_then (runCommand env ''git''
                 [JStr ''clone'', JStr ''--depth=1'', r, JStr (tempRepoPath n)]
                 (''Failed to clone repository for '' @ n)) (\<lambda>cloned.
     and_then (join_docs_path (tempRepoPath n) d) (\<lambda>fullDocsPath.
     and_then (check_docs_path fullDocsPath d) (\<lambda>u.
     run_files_to_prompt env fullDocsPath n)))))"
  have c1: "keeps written ?chain" by (intro keeps_and_then step_keeps)
  have c2: "keeps requests ?chain" by (intro keeps_and_then step_keeps)
  have c3: "keeps invoked ?chain" by (intro keeps_and_then step_keeps)
  have eq: "\<And>w. extract_documentation env n r d w
      = ?chain (remove_dir env (tempRepoPath n) CleanFailed w)"
    by (simp add: extract_documentation_def)
  show "keeps written (extract_documentation env n r d)"
    using c1 by (simp add: keeps_def eq)
  show "keeps requests (extract_documentation env n r d)"
    using c2 by (simp add: keeps_def eq)
  show "keeps invoked (extract_documentation env n r d)"
    using c3 by (simp add: keeps_def eq)
qed

lemma process_response_fields:
  "written (snd (process_response resp t w)) = written w
   \<and> requests (snd (process_response resp t w)) = requests w
   \<and> invoked (snd (process_response resp t w)) = invoked w"
  by (simp add: process_response_def split: sum.splits)

lemma generate_fields:
  "written (snd (generateCheatsheetWithGemini env docs t w)) = written w
   \<and> requests (snd (generateCheatsheetWithGemini env docs t w)) = requests w @ [(docs, t)]
   \<and> invoked (snd (generateCheatsheetWithGemini env docs t w)) = invoked w"
proof (cases "generateContent env w docs t")
  case (Inl e)
  then show ?thesis by (simp add: generateCheatsheetWithGemini_def Let_def)
next
  case (Inr resp)
  define w0 where "w0 = w\<lparr>requests := requests w @ [(docs, t)]\<rparr>"
  obtain res w1 where pr: "process_response resp t w0 = (res, w1)"
    by (cases "process_response resp t w0")
  have "written w1 = written w \<and> requests w1 = requests w @ [(docs, t)] \<and> invoked w1 = invoked w"
    using process_response_fields[of resp t w0] pr by (simp add: w0_def)
  with Inr pr show ?thesis
    by (cases res) (simp_all add: generateCheatsheetWithGemini_def Let_def w0_def)
qed

lemma saveCheatsheet_fields:
  "requests (snd (saveCheatsheet env c n w)) = requests w
   \<and> invoked (snd (saveCheatsheet env c n w)) = invoked w"
  by (simp add: saveCheatsheet_def mkdir_def Let_def split: option.splits)

lemma generate_keeps:
  "keeps written (generateCheatsheetWithGemini env docs t)"
  "keeps invoked (generateCheatsheetWithGemini env docs t)"
  by (simp_all add: keeps_def generate_fields)

lemma saveCheatsheet_keeps:
  "keeps requests (saveCheatsheet env c n)" "keeps invoked (saveCheatsheet env c n)"
  by (simp_all add: keeps_def saveCheatsheet_fields)

lemma processSource_try_invoked: "keeps invoked (processSource_try env n r d)"
  unfolding processSource_try_def
  by (intro keeps_and_then extract_documentation_keeps step_keeps generate_keeps saveCheatsheet_keeps)

lemma processSource_catch_fields [simp]:
  "invoked (processSource_catch n (r, w)) = invoked w"
  "written (processSource_catch n (r, w)) = written w"
  "requests (processSource_catch n (r, w)) = requests w"
  "disk (processSource_catch n (r, w)) = disk w"
  by (simp_all add: processSource_catch_def split: sum.splits)

lemma entered_fields [simp]:
  "invoked (entered s w) = invoked w @ [s]" "written (entered s w) = written w"
  "requests (entered s w) = requests w" "disk (entered s w) = disk w"
  "console (entered s w) = console w"
  by (simp_all add: entered_def)

lemma processSource_caught_invoked [simp]:
  "invoked (processSource_caught env n s w) = invoked w"
proof -
  obtain r w1 where t: "processSource_try env n (repo s) (path s) w = (r, w1)"
    by (cases "processSource_try env n (repo s) (path s) w")
  from keepsD[OF processSource_try_invoked t] t show ?thesis
    by (simp add: processSource_caught_def)
qed

lemma processSource_invoked:
  "invoked (snd (processSource env s w)) = invoked w @ [s]"
  by (cases "name s") (simp_all add: processSource_def)

lemma processSource_string: "name s = JStr n \<Longrightarrow> fst (processSource env s w) = Inr ()"
  by (simp add: processSource_def)

lemma processSource_not_string:
  "\<not> is_string (name s) \<Longrightarrow> \<exists>m. fst (processSource env s w) = Inl (TypeError m)"
  by (cases "name s") (simp_all add: processSource_def is_string_def)

lemma process_all_invoked:
  "invoked (snd (process_all env srcs t w)) = invoked w @ srcs"
proof (induction srcs arbitrary: t w)
  case Nil
  show ?case by simp
next
  case (Cons s rest)
  obtain r w1 where p: "processSource env s w = (r, w1)" by (cases "processSource env s w")
  have "invoked w1 = invoked w @ [s]" using processSource_invoked[of env s w] p by simp
  with p Cons.IH show ?case by (cases r) simp_all
qed

lemma process_all_counts:
  "successCount (fst (process_all env srcs t w)) + failureCount (fst (process_all env srcs t w))
     = successCount t + failureCount t + length srcs"
proof (induction srcs arbitrary: t w)
  case Nil
  show ?case by simp
next
  case (Cons s rest)
  obtain r w1 where p: "processSource env s w = (r, w1)" by (cases "processSource env s w")
  with Cons.IH show ?case by (cases r) simp_all
qed

section \<open>Failures inside the pipeline\<close>

lemma blank_trim: "blank s \<longleftrightarrow> trim s = []"
proof
  assume "blank s"
  then show "trim s = []"
    by (auto simp: blank_def list_all_iff trim_def dest: set_dropWhileD)
next
  assume t: "trim s = []"
  show "blank s"
  proof (rule ccontr)
    assume "\<not> blank s"
    then have ne: "dropWhile is_space s \<noteq> []"
      by (simp add: blank_def list_all_iff)
    then have "\<not> is_space (hd (dropWhile is_space s))" by (rule hd_dropWhile)
    moreover have "hd (dropWhile is_space s) \<in> set (dropWhile is_space s)"
      using ne by (rule hd_in_set)
    ultimately show False using t by (auto simp: trim_def)
  qed
qed

lemma check_output_blank:
  "blank out \<Longrightarrow> check_output out n d w = (Inl (no_output_error n d), w)"
  using blank_trim[of out] by (simp add: check_output_def)

lemma check_output_ok:
  "\<not> blank out \<Longrightarrow> check_output out n d w = (Inr (), w)"
  using blank_trim[of out] by (auto simp: check_output_def trim_def)

lemma remove_dir_console_mono: "x \<in> set (console w) \<Longrightarrow> x \<in> set (console (remove_dir env p warn w))"
  using remove_dir_console[of env p warn w] by auto

lemma processSource_console:
  assumes "name s = JStr n"
    and "fst (processSource_try env n (repo s) (path s) (entered s w)) = Inl e"
  shows "SourceFailed n (message e) \<in> set (console (snd (processSource env s w)))"
proof -
  obtain r w1 where t: "processSource_try env n (repo s) (path s) (entered s w) = (r, w1)"
    by (cases "processSource_try env n (repo s) (path s) (entered s w)")
  with assms(2) have "r = Inl e" by simp
  with t have "SourceFailed n (message e) \<in> set (console (processSource_caught env n s (entered s w)))"
    by (simp add: processSource_caught_def processSource_catch_def)
  then show ?thesis using assms(1)
    by (simp add: processSource_def remove_dir_console_mono)
qed

lemma demo_name: "name demo_source = JStr ''demo''"
  by (simp add: demo_source_def)

lemma demo_clone_fails:
  "fst (processSource_try failing_clone ''demo'' (repo demo_source) (path demo_source)
          (entered demo_source start))
     = Inl (Error ''Failed to clone repository for demo (Exit Code: 128)'')"
  by code_simp

text \<open>
  Claim C2, as amended. For a source whose name is a string, the type \<^verbatim>\<open>processSource\<close>
  declares, the promise of \<^verbatim>\<open>processSource\<close> is always fulfilled: whatever error ends the
  \<^verbatim>\<open>try\<close> block (clone, documentation path, extraction, generation or saving) is caught
  and printed as the failure of that source. For every list of sources, whatever their
  names, the loop of \<^verbatim>\<open>run\<close> calls \<^verbatim>\<open>processSource\<close> for each source, in order.
\<close>

theorem processSource_catches_failures:
  "(name s = JStr n \<longrightarrow>
       fst (processSource env s w) = Inr ()
     \<and> (\<forall>e. fst (processSource_try env n (repo s) (path s) (entered s w)) = Inl e
            \<longrightarrow> SourceFailed n (message e) \<in> set (console (snd (processSource env s w)))))
   \<and> invoked (snd (process_all env srcs t w)) = invoked w @ srcs"
  using processSource_console[of s n env w]
  by (simp add: processSource_string process_all_invoked)

text \<open>
  The theorem at work: the clone of the one source fails, the failure is printed and
  the promise fulfilled; in a list whose first source has the number 5 as its name, the
  second source is still processed.
\<close>

theorem processSource_catches_failures_witness:
  "name demo_source = JStr ''demo''
   \<and> fst (processSource_try failing_clone ''demo'' (repo demo_source) (path demo_source)
          (entered demo_source start))
       = Inl (Error ''Failed to clone repository for demo (Exit Code: 128)'')
   \<and> fst (processSource failing_clone demo_source start) = Inr ()
   \<and> SourceFailed ''demo'' ''Failed to clone repository for demo (Exit Code: 128)''
       \<in> set (console (snd (processSource failing_clone demo_source start)))
   \<and> invoked (snd (process_all failing_clone [demo_source\<lparr>name := JNum 5\<rparr>, demo_source]
                      \<lparr>successCount = 0, failureCount = 0\<rparr> start))
       = [demo_source\<lparr>name := JNum 5\<rparr>, demo_source]"
  using processSource_catches_failures[of demo_source "''demo''" failing_clone start
      "[demo_source\<lparr>name := JNum 5\<rparr>, demo_source]" "\<lparr>successCount = 0, failureCount = 0\<rparr>"]
    demo_name demo_clone_fails
  by (simp add: start_def)

text \<open>
  A configuration file may give a number as the name (the loader only asks for a truthy
  value). Then \<^verbatim>\<open>toLowerCase\<close> of line 199, which stands before the \<^verbatim>\<open>try\<close>, raises a
  TypeError past \<^verbatim>\<open>processSource\<close>: the claim of C2 as stated fails. The catch of \<^verbatim>\<open>run\<close>
  counts this source as failed.
\<close>

theorem processSource_raises_on_numeric_name:
  "fst (processSource failing_clone (demo_source\<lparr>name := JNum 5\<rparr>) start)
     = Inl (TypeError ''currentProjectName.toLowerCase is not a function'')
   \<and> fst (run numeric_name start) = Returned \<lparr>attempted = 1, succeeded = 0, failed = 1\<rparr>"
  by code_simp

section \<open>Blank documentation\<close>

lemma processSource_requests_string:
  "name s = JStr n \<Longrightarrow>
   requests (snd (processSource env s w))
     = requests (snd (processSource_try env n (repo s) (path s) (entered s w)))"
  by (cases "processSource_try env n (repo s) (path s) (entered s w)")
     (simp add: processSource_def processSource_caught_def)

lemma try_after_extraction:
  assumes "fst (extract_documentation env n r d w) = Inr out"
  shows "processSource_try env n r d w =
     and_then (check_output out n d) (\<lambda>u.
     and_then (generateCheatsheetWithGemini env out n) (\<lambda>c. saveCheatsheet env c n))
       (snd (extract_documentation env n r d w))"
proof -
  obtain w1 where "extract_documentation env n r d w = (Inr out, w1)"
    using assms by (cases "extract_documentation env n r d w") simp
  then show ?thesis by (simp add: processSource_try_def and_then_Inr)
qed

lemma try_blank:
  assumes "fst (extract_documentation env n r d w) = Inr out" and "blank out"
  shows "processSource_try env n r d w
     = (Inl (no_output_error n d), snd (extract_documentation env n r d w))"
  using try_after_extraction[OF assms(1)] check_output_blank[OF assms(2)]
  by (simp add: and_then_Inl)

lemma extract_requests [simp]:
  "requests (snd (extract_documentation env n r d w)) = requests w"
  using extract_documentation_keeps(2)[of env n r d] by (simp add: keeps_def)

lemma try_requests:
  "requests (snd (processSource_try env n r d w)) = requests w
   \<or> (\<exists>docs. \<not> blank docs
        \<and> requests (snd (processSource_try env n r d w)) = requests w @ [(docs, n)])"
proof (cases "extract_documentation env n r d w")
  case (Pair res w1)
  have rq: "requests w1 = requests w" using extract_requests[of env n r d w] Pair by simp
  show ?thesis
  proof (cases res)
    case (Inl e)
    with Pair rq show ?thesis by (simp add: processSource_try_def and_then_Inl)
  next
    case (Inr out)
    with Pair have fx: "fst (extract_documentation env n r d w) = Inr out" by simp
    show ?thesis
    proof (cases "blank out")
      case True
      from try_blank[OF fx True] rq Pair show ?thesis by simp
    next
      case False
      obtain g w2 where gen: "generateCheatsheetWithGemini env out n w1 = (g, w2)"
        by (cases "generateCheatsheetWithGemini env out n w1")
      have rq2: "requests w2 = requests w @ [(out, n)]"
        using generate_fields[of env out n w1] gen rq by simp
      have "requests (snd (processSource_try env n r d w)) = requests w @ [(out, n)]"
      proof (cases g)
        case (Inl e)
        with gen rq2 Pair show ?thesis
          by (simp add: try_after_extraction[OF fx] check_output_ok[OF False] and_then_Inr and_then_Inl)
      next
        case (Inr c)
        with gen rq2 Pair saveCheatsheet_fields[of env c n w2] show ?thesis
          by (simp add: try_after_extraction[OF fx] check_output_ok[OF False] and_then_Inr)
      qed
      with False show ?thesis by blast
    qed
  qed
qed

text \<open>
  Claim C5. When the extraction of a source yields text that is empty or white space
  only, the \<^verbatim>\<open>try\<close> block ends with the error of line 241, the failure is printed, and
  \<^verbatim>\<open>processSource\<close> sends no request to the generation service. In general
  \<^verbatim>\<open>processSource\<close> sends at most one request, and never one with blank documentation.
\<close>

theorem blank_extraction_skips_generation:
  "(name s = JStr n
      \<and> fst (extract_documentation env n (repo s) (path s) (entered s w)) = Inr out
      \<and> blank out \<longrightarrow>
        fst (processSource_try env n (repo s) (path s) (entered s w))
          = Inl (no_output_error n (path s))
      \<and> requests (snd (processSource env s w)) = requests w
      \<and> SourceFailed n (message (no_output_error n (path s)))
          \<in> set (console (snd (processSource env s w))))
   \<and> (requests (snd (processSource env s w)) = requests w
      \<or> (\<exists>docs tool. \<not> blank docs
            \<and> requests (snd (processSource env s w)) = requests w @ [(docs, tool)]))"
proof (intro conjI impI)
  assume a: "name s = JStr n
      \<and> fst (extract_documentation env n (repo s) (path s) (entered s w)) = Inr out
      \<and> blank out"
  then have tb: "processSource_try env n (repo s) (path s) (entered s w)
     = (Inl (no_output_error n (path s)),
        snd (extract_documentation env n (repo s) (path s) (entered s w)))"
    using try_blank by blast
  show "fst (processSource_try env n (repo s) (path s) (entered s w))
          = Inl (no_output_error n (path s))"
    using tb by simp
  show "requests (snd (processSource env s w)) = requests w"
    using a tb by (simp add: processSource_requests_string)
  show "SourceFailed n (message (no_output_error n (path s)))
          \<in> set (console (snd (processSource env s w)))"
    using a tb processSource_console[of s n env w "no_output_error n (path s)"] by simp
next
  show "requests (snd (processSource env s w)) = requests w
      \<or> (\<exists>docs tool. \<not> blank docs
            \<and> requests (snd (processSource env s w)) = requests w @ [(docs, tool)])"
  proof (cases "name s")
    case (JStr n')
    from try_requests[of env n' "repo s" "path s" "entered s w"] JStr show ?thesis
      by (auto simp: processSource_requests_string)
  qed (simp_all add: processSource_def)
qed

lemma demo_blank_output:
  "fst (extract_documentation (working_tools [CHR '' '', CHR 0x0A]) ''demo'' (repo demo_source)
          (path demo_source) (entered demo_source start)) = Inr [CHR '' '', CHR 0x0A]"
  by code_simp

text \<open>
  The theorem at work: the extraction tool prints a space and a line feed.
\<close>

theorem blank_extraction_skips_generation_witness:
  "name demo_source = JStr ''demo''
   \<and> fst (extract_documentation (working_tools [CHR '' '', CHR 0x0A]) ''demo'' (repo demo_source)
          (path demo_source) (entered demo_source start)) = Inr [CHR '' '', CHR 0x0A]
   \<and> blank [CHR '' '', CHR 0x0A]
   \<and> fst (processSource_try (working_tools [CHR '' '', CHR 0x0A]) ''demo'' (repo demo_source)
          (path demo_source) (entered demo_source start))
       = Inl (no_output_error ''demo'' (JStr ''docs''))
   \<and> requests (snd (processSource (working_tools [CHR '' '', CHR 0x0A]) demo_source start)) = []
   \<and> SourceFailed ''demo'' (message (no_output_error ''demo'' (JStr ''docs'')))
       \<in> set (console (snd (processSource (working_tools [CHR '' '', CHR 0x0A]) demo_source start)))"
proof -
  have b: "blank [CHR '' '', CHR 0x0A]" by (simp add: blank_def is_space_def)
  have p: "path demo_source = JStr ''docs''" by (simp add: demo_source_def)
  have rq: "requests start = []" by (simp add: start_def)
  show ?thesis
    using blank_extraction_skips_generation[of demo_source "''demo''"
        "working_tools [CHR '' '', CHR 0x0A]" start "[CHR '' '', CHR 0x0A]"]
      demo_name demo_blank_output b p rq
    by simp
qed

section \<open>Generation failures\<close>







lemma extract_written [simp]:
  "written (snd (extract_documentation env n r d w)) = written w"
  using extract_documentation_keeps(1)[of env n r d] by (simp add: keeps_def)




lemma within_self [simp]: "within p p"
  by (simp add: within_def)

lemma removed_absent:
  "rmSync env w p = None \<Longrightarrow> p \<notin> disk (remove_dir env p warn w)"
  by (simp add: remove_dir_def)

lemma remove_dir_disk_subset: "disk (remove_dir env p warn w) \<subseteq> disk w"
  by (auto simp: remove_dir_def split: option.splits)

lemma remove_dir_failed:
  "rmSync env w p = Some e \<Longrightarrow>
   remove_dir env p warn w = (if code e \<noteq> Some ''ENOENT'' then report [warn p (message e)] w else w)"
  by (simp add: remove_dir_def)



lemma answering_generateContent [simp]: "generateContent (answering r) w d t = Inr r"
  by (simp add: answering_def)

lemma answering_rmSync [simp]: "rmSync (answering r) w p = None"
  by (simp add: answering_def working_tools_def failing_clone_def)




section \<open>Cleanup\<close>

text \<open>
  Claim C4, as amended. For a source whose name is a string \<^verbatim>\<open>processSource\<close> always
  returns. If the removal in the \<^verbatim>\<open>finally\<close> block does not fail, the workspace does not
  exist afterwards. If it fails, the world stays as the \<^verbatim>\<open>try\<close> and \<^verbatim>\<open>catch\<close> blocks left
  it, with one warning added unless the code of the error is \<^verbatim>\<open>ENOENT\<close>. A removal that
  follows a successful one finds the directory absent and leaves it absent.
\<close>

theorem workspace_cleanup:
  "name s = JStr n \<Longrightarrow>
     fst (processSource env s w) = Inr ()
   \<and> (rmSync env (processSource_caught env n s (entered s w)) (tempRepoPath n) = None \<longrightarrow>
        tempRepoPath n \<notin> disk (snd (processSource env s w)))
   \<and> (\<forall>e. rmSync env (processSource_caught env n s (entered s w)) (tempRepoPath n) = Some e \<longrightarrow>
        snd (processSource env s w) =
          (if code e \<noteq> Some ''ENOENT''
           then report [CleanFailedAfter (tempRepoPath n) (message e)]
                  (processSource_caught env n s (entered s w))
           else processSource_caught env n s (entered s w)))
   \<and> (rmSync env w p = None \<longrightarrow>
        p \<notin> disk (remove_dir env p warn w)
      \<and> p \<notin> disk (remove_dir env p warn (remove_dir env p warn w)))"
proof (intro conjI impI allI)
  assume n: "name s = JStr n"
  then show "fst (processSource env s w) = Inr ()" by (simp add: processSource_string)
  {
    assume "rmSync env (processSource_caught env n s (entered s w)) (tempRepoPath n) = None"
    then show "tempRepoPath n \<notin> disk (snd (processSource env s w))"
      using n by (simp add: processSource_def removed_absent)
  }
  {
    fix e
    assume "rmSync env (processSource_caught env n s (entered s w)) (tempRepoPath n) = Some e"
    then show "snd (processSource env s w) =
          (if code e \<noteq> Some ''ENOENT''
           then report [CleanFailedAfter (tempRepoPath n) (message e)]
                  (processSource_caught env n s (entered s w))
           else processSource_caught env n s (entered s w))"
      using n by (simp add: processSource_def remove_dir_failed)
  }
  {
    assume r: "rmSync env w p = None"
    then show "p \<notin> disk (remove_dir env p warn w)" by (rule removed_absent)
    then show "p \<notin> disk (remove_dir env p warn (remove_dir env p warn w))"
      using remove_dir_disk_subset[of env p warn "remove_dir env p warn w"] by blast
  }
qed

text \<open>
  The theorem at work, once where the removal works and once where it does not.
\<close>

theorem workspace_cleanup_witness:
  "name demo_source = JStr ''demo''
   \<and> rmSync failing_clone (processSource_caught failing_clone ''demo'' demo_source
        (entered demo_source start)) (tempRepoPath ''demo'') = None
   \<and> rmSync stuck_workspace (processSource_caught stuck_workspace ''demo'' demo_source
        (entered demo_source start)) (tempRepoPath ''demo'')
       = Some (SystemError ''EACCES'' ''permission denied'')
   \<and> fst (processSource failing_clone demo_source start) = Inr ()
   \<and> tempRepoPath ''demo'' \<notin> disk (snd (processSource failing_clone demo_source start))
   \<and> fst (processSource stuck_workspace demo_source start) = Inr ()
   \<and> snd (processSource stuck_workspace demo_source start)
       = report [CleanFailedAfter (tempRepoPath ''demo'') ''permission denied'']
           (processSource_caught stuck_workspace ''demo'' demo_source (entered demo_source start))
   \<and> ''repo_temp/demo''
       \<notin> disk (remove_dir failing_clone ''repo_temp/demo'' CleanFailed
                 (remove_dir failing_clone ''repo_temp/demo'' CleanFailed start))"
proof -
  have r1: "\<And>w p. rmSync failing_clone w p = None" by (simp add: failing_clone_def)
  have r2: "\<And>w p. rmSync stuck_workspace w p = Some (SystemError ''EACCES'' ''permission denied'')"
    by (simp add: stuck_workspace_def)
  show ?thesis
    using workspace_cleanup[OF demo_name, of failing_clone start "''repo_temp/demo''" CleanFailed]
      workspace_cleanup[OF demo_name, of stuck_workspace start "''repo_temp/demo''" CleanFailed]
      demo_name r1 r2
    by simp
qed

text \<open>
  Where no directory can be removed the workspace is still on disk when \<^verbatim>\<open>processSource\<close>
  has returned: the claim of C4 as stated fails.
\<close>

theorem workspace_left_behind:
  "fst (processSource stuck_workspace demo_source start) = Inr ()
   \<and> tempRepoPath ''demo'' \<in> disk (snd (processSource stuck_workspace demo_source start))"
  by code_simp

section \<open>The tally\<close>

lemma process_all_string_names:
  "list_all (\<lambda>s. \<exists>n. name s = JStr n) srcs \<Longrightarrow>
   fst (process_all env srcs t w) = t\<lparr>successCount := successCount t + length srcs\<rparr>"
proof (induction srcs arbitrary: t w)
  case Nil
  show ?case by simp
next
  case (Cons s rest)
  then obtain n where n: "name s = JStr n" by auto
  obtain r w1 where p: "processSource env s w = (r, w1)" by (cases "processSource env s w")
  have "r = Inr ()" using processSource_string[OF n, of env w] p by simp
  with p Cons show ?case by simp
qed

text \<open>
  Claim C1. The loop counts a source as succeeded when \<^verbatim>\<open>processSource\<close> returns and as
  failed when it raises, and \<^verbatim>\<open>processSource\<close> returns also when its \<^verbatim>\<open>try\<close> block has
  failed. Here the clone of the only source fails: the summary counts one success and no
  failure, and the line for failed operations is not printed.
\<close>

theorem failed_clone_counted_as_success:
  "fst (processSource_try failing_clone ''demo'' (repo demo_source) (path demo_source)
          (entered demo_source start))
     = Inl (Error ''Failed to clone repository for demo (Exit Code: 128)'')
   \<and> fst (run failing_clone start) = Returned \<lparr>attempted = 1, succeeded = 1, failed = 0\<rparr>
   \<and> SomeFailed \<notin> set (console (snd (run failing_clone start)))"
  by code_simp

section \<open>Exit status\<close>

lemma report_nothing [simp]: "report [] w = w"
  by (simp add: report_def)

lemma parse_valid_source:
  assumes f: "sourceFilePath (workdir env) a \<in> d"
  shows "(case parse_source_file env (sourceFilePath (workdir env) a) d of
      Inl e \<Rightarrow> None
    | Inr (r, n, p) \<Rightarrow>
        if truthy r \<and> truthy n \<and> truthy p
        then Some \<lparr>name = n, repo = r, path = p,
                   sourceOrigin = basename (sourceFilePath (workdir env) a)\<rparr>
        else None)
     = valid_source env d a"
proof (cases "readFileSync env d (sourceFilePath (workdir env) a)")
  case (Inl e)
  with f show ?thesis by (simp add: parse_source_file_def valid_source_def)
next
  case content: (Inr content)
  show ?thesis
  proof (cases "JSON_parse env content")
    case (Inl e)
    with content f show ?thesis by (simp add: parse_source_file_def valid_source_def)
  next
    case (Inr sourceData)
    with content f show ?thesis
      by (cases sourceData)
         (auto simp: parse_source_file_def valid_source_def split: option.splits)
  qed
qed

lemma load_source_file_string:
  "\<exists>acc' ls. load_source_file env (JStr a) (acc, w) = (Inr acc', report ls w)
      \<and> sourcesToProcess acc'
          = sourcesToProcess acc
            @ (case valid_source env (disk w) a of None \<Rightarrow> [] | Some s \<Rightarrow> [s])"
proof (cases "sourceFilePath (workdir env) a \<in> disk w")
  case False
  then have "load_source_file env (JStr a) (acc, w)
      = (Inr (acc\<lparr>hasErrors := True\<rparr>), report [NotFound (sourceFilePath (workdir env) a)] w)"
    and "valid_source env (disk w) a = None"
    by (simp_all add: load_source_file_def valid_source_def)
  then show ?thesis by fastforce
next
  case there: True
  note v = parse_valid_source[OF there, symmetric]
  show ?thesis
  proof (cases "parse_source_file env (sourceFilePath (workdir env) a) (disk w)")
    case (Inl e)
    with there v have "load_source_file env (JStr a) (acc, w)
      = (Inr (acc\<lparr>hasErrors := True\<rparr>),
         report [LoadFailed (sourceFilePath (workdir env) a) (message e)] w)"
      and "valid_source env (disk w) a = None"
      by (simp_all add: load_source_file_def)
    then show ?thesis by fastforce
  next
    case (Inr t)
    obtain r n p where t: "t = (r, n, p)" by (cases t)
    show ?thesis
    proof (cases "truthy r \<and> truthy n \<and> truthy p")
      case False
      with there v Inr t have "load_source_file env (JStr a) (acc, w)
        = (Inr (acc\<lparr>hasErrors := True\<rparr>), report [MissingKeys (sourceFilePath (workdir env) a)] w)"
        and "valid_source env (disk w) a = None"
        by (auto simp: load_source_file_def)
      then show ?thesis by fastforce
    next
      case ok: True
      have val: "valid_source env (disk w) a
          = Some \<lparr>name = n, repo = r, path = p,
                   sourceOrigin = basename (sourceFilePath (workdir env) a)\<rparr>"
        using v Inr t ok by simp
      show ?thesis
      proof (cases "toString_throws n")
        case True
        with there Inr t ok have "load_source_file env (JStr a) (acc, w)
          = (Inr (acc\<lparr>sourcesToProcess := sourcesToProcess acc
               @ [\<lparr>name = n, repo = r, path = p,
                   sourceOrigin = basename (sourceFilePath (workdir env) a)\<rparr>],
               hasErrors := True\<rparr>),
             report [LoadFailed (sourceFilePath (workdir env) a)
                       ''Cannot convert object to primitive value''] w)"
          by (simp add: load_source_file_def Let_def)
        with val show ?thesis by fastforce
      next
        case False
        with there Inr t ok have "load_source_file env (JStr a) (acc, w)
          = (Inr (acc\<lparr>sourcesToProcess := sourcesToProcess acc
               @ [\<lparr>name = n, repo = r, path = p,
                   sourceOrigin = basename (sourceFilePath (workdir env) a)\<rparr>]\<rparr>), report [] w)"
          by (simp add: load_source_file_def Let_def)
        with val show ?thesis by fastforce
      qed
    qed
  qed
qed

lemma load_source_file_other:
  "\<not> is_string v \<Longrightarrow>
   load_source_file env v (acc, w)
     = (Inl (TypeError ''sourceFileArg.startsWith is not a function''), w)"
  by (cases v) (simp_all add: load_source_file_def is_string_def)

lemma load_all_strings:
  "list_all is_string args \<Longrightarrow>
   \<exists>acc' w'. load_all env args (acc, w) = (Inr acc', w')
      \<and> sourcesToProcess acc' = sourcesToProcess acc @ sources_of env (disk w) args
      \<and> invoked w' = invoked w \<and> disk w' = disk w"
proof (induction args arbitrary: acc w)
  case Nil
  show ?case by (simp add: sources_of_def)
next
  case (Cons v rest)
  then obtain a where a: "v = JStr a" by (cases v) (simp_all add: is_string_def)
  obtain acc1 ls where one: "load_source_file env (JStr a) (acc, w) = (Inr acc1, report ls w)"
    and s1: "sourcesToProcess acc1 = sourcesToProcess acc
        @ (case valid_source env (disk w) a of None \<Rightarrow> [] | Some s \<Rightarrow> [s])"
    using load_source_file_string[of env a acc w] by blast
  from Cons.prems have "list_all is_string rest" by simp
  from Cons.IH[OF this, of acc1 "report ls w"]
  obtain acc' w' where rest: "load_all env rest (acc1, report ls w) = (Inr acc', w')"
    and s2: "sourcesToProcess acc' = sourcesToProcess acc1 @ sources_of env (disk w) rest"
    and i2: "invoked w' = invoked w" and d2: "disk w' = disk w"
    by auto
  show ?case using a one rest s1 s2 i2 d2 by (simp add: sources_of_def)
qed

lemma load_all_raises:
  "\<not> list_all is_string args \<Longrightarrow>
   \<exists>e w'. load_all env args (acc, w) = (Inl e, w') \<and> invoked w' = invoked w"
proof (induction args arbitrary: acc w)
  case Nil
  then show ?case by simp
next
  case (Cons v rest)
  show ?case
  proof (cases "is_string v")
    case False
    then show ?thesis by (simp add: load_source_file_other)
  next
    case True
    then obtain a where a: "v = JStr a" by (cases v) (simp_all add: is_string_def)
    obtain acc1 ls where one: "load_source_file env (JStr a) (acc, w) = (Inr acc1, report ls w)"
      using load_source_file_string[of env a acc w] by blast
    from Cons.prems True have "\<not> list_all is_string rest" by simp
    from Cons.IH[OF this, of acc1 "report ls w"] a one show ?thesis by simp
  qed
qed

lemma environment_source:
  "(case load_from_environment env of Some s \<Rightarrow> [s] | None \<Rightarrow> [])
     = (case (REPO_URL env, PROJECT_NAME env, DOCS_DIR env) of
          (Some r, Some n, Some d) \<Rightarrow>
            if r \<noteq> [] \<and> n \<noteq> [] \<and> d \<noteq> []
            then [\<lparr>name = JStr n, repo = JStr r, path = JStr d,
                   sourceOrigin = ''environment variables''\<rparr>]
            else []
        | _ \<Rightarrow> [])"
  by (auto simp: load_from_environment_def truthy_str_def split: option.splits)

lemma resolvable_environment:
  "positional env = [] \<Longrightarrow>
   resolvable env w = (case load_from_environment env of Some s \<Rightarrow> [s] | None \<Rightarrow> [])"
  by (simp add: resolvable_def environment_source)

lemma load_sources_raise:
  assumes "\<not> list_all is_string (positional env)"
  shows "\<exists>e w1. load_sources env w = (Raised e, w1) \<and> invoked w1 = invoked w"
proof -
  from assms have ne: "positional env \<noteq> []" by auto
  obtain e w1 where "load_all env (positional env)
      (\<lparr>sourcesToProcess = [], hasErrors = False\<rparr>, w) = (Inl e, w1)" and "invoked w1 = invoked w"
    using load_all_raises[OF assms] by blast
  with ne show ?thesis by (simp add: load_sources_def)
qed

lemma load_sources_exit:
  assumes "list_all is_string (positional env)" and "resolvable env w = []"
  shows "\<exists>w1. load_sources env w = (Exited 1, w1) \<and> invoked w1 = invoked w"
proof (cases "positional env = []")
  case True
  with assms(2) show ?thesis
    by (auto simp: load_sources_def resolvable_environment split: option.splits)
next
  case False
  obtain acc' w' where "load_all env (positional env)
      (\<lparr>sourcesToProcess = [], hasErrors = False\<rparr>, w) = (Inr acc', w')"
    and "sourcesToProcess acc' = sources_of env (disk w) (positional env)"
    and "invoked w' = invoked w"
    using load_all_strings[OF assms(1), of env "\<lparr>sourcesToProcess = [], hasErrors = False\<rparr>" w]
    by auto
  with False assms(2) show ?thesis by (simp add: load_sources_def resolvable_def)
qed

lemma load_sources_return:
  assumes "list_all is_string (positional env)" and "resolvable env w \<noteq> []"
  shows "\<exists>acc w1. load_sources env w = (Returned acc, w1)
      \<and> sourcesToProcess acc = resolvable env w \<and> invoked w1 = invoked w"
proof (cases "positional env = []")
  case True
  with assms(2) show ?thesis
    by (auto simp: load_sources_def resolvable_environment split: option.splits)
next
  case False
  obtain acc' w' where "load_all env (positional env)
      (\<lparr>sourcesToProcess = [], hasErrors = False\<rparr>, w) = (Inr acc', w')"
    and "sourcesToProcess acc' = sources_of env (disk w) (positional env)"
    and "invoked w' = invoked w"
    using load_all_strings[OF assms(1), of env "\<lparr>sourcesToProcess = [], hasErrors = False\<rparr>" w]
    by auto
  with False assms(2) show ?thesis by (simp add: load_sources_def resolvable_def)
qed

lemma run_raise:
  assumes "\<not> list_all is_string (positional env)"
  shows "\<exists>e w1. run env w = (Raised e, w1) \<and> invoked w1 = invoked w"
  using load_sources_raise[OF assms, of w] by (auto simp: run_def)

lemma run_exit:
  assumes "list_all is_string (positional env)" and "resolvable env w = []"
  shows "\<exists>w1. run env w = (Exited 1, w1) \<and> invoked w1 = invoked w"
  using load_sources_exit[OF assms] by (auto simp: run_def)

lemma run_return:
  assumes "list_all is_string (positional env)" and "resolvable env w \<noteq> []"
  shows "\<exists>sm w2. run env w = (Returned sm, w2)
      \<and> attempted sm = length (resolvable env w)
      \<and> succeeded sm + failed sm = attempted sm
      \<and> invoked w2 = invoked w @ resolvable env w"
proof -
  obtain acc w1 where l: "load_sources env w = (Returned acc, w1)"
    and a: "sourcesToProcess acc = resolvable env w" and i1: "invoked w1 = invoked w"
    using load_sources_return[OF assms] by blast
  obtain t w2 where p: "process_all env (sourcesToProcess acc)
      \<lparr>successCount = 0, failureCount = 0\<rparr> w1 = (t, w2)"
    by (cases "process_all env (sourcesToProcess acc) \<lparr>successCount = 0, failureCount = 0\<rparr> w1")
  have i2: "invoked w2 = invoked w @ resolvable env w"
    using process_all_invoked[of env "sourcesToProcess acc" "\<lparr>successCount = 0, failureCount = 0\<rparr>" w1]
      p i1 a by simp
  have c: "successCount t + failureCount t = length (resolvable env w)"
    using process_all_counts[of env "sourcesToProcess acc" "\<lparr>successCount = 0, failureCount = 0\<rparr>" w1]
      p a by simp
  show ?thesis using l p a c i2 by (simp add: run_def)
qed

lemma main_result:
  "fst (main env w)
     = (if truthy_str (GEMINI_API_KEY env) \<and> list_all is_string (positional env)
           \<and> resolvable env w \<noteq> []
        then 0 else 1)
   \<and> invoked (snd (main env w))
     = invoked w @ (if truthy_str (GEMINI_API_KEY env) \<and> list_all is_string (positional env)
                    then resolvable env w else [])"
proof (cases "truthy_str (GEMINI_API_KEY env)")
  case False
  then show ?thesis by (simp add: main_def)
next
  case key: True
  show ?thesis
  proof (cases "list_all is_string (positional env)")
    case False
    obtain e w1 where "run env w = (Raised e, w1)" and "invoked w1 = invoked w"
      using run_raise[OF False] by blast
    with key False show ?thesis by (simp add: main_def)
  next
    case strings: True
    show ?thesis
    proof (cases "resolvable env w = []")
      case True
      obtain w1 where "run env w = (Exited 1, w1)" and "invoked w1 = invoked w"
        using run_exit[OF strings True] by blast
      with key strings True show ?thesis by (simp add: main_def)
    next
      case False
      obtain sm w2 where "run env w = (Returned sm, w2)"
        and "invoked w2 = invoked w @ resolvable env w"
        using run_return[OF strings False] by blast
      with key strings False show ?thesis by (simp add: main_def)
    qed
  qed
qed



section \<open>Required fields\<close>

lemma load_source_file_object:
  assumes "sourceFilePath (workdir env) a \<in> disk w"
    and "readFileSync env (disk w) (sourceFilePath (workdir env) a) = Inr content"
    and "JSON_parse env content = Inr (JObj kvs)"
  shows "parse_source_file env (sourceFilePath (workdir env) a) (disk w)
     = Inr (case map_of kvs ''repo'' of None \<Rightarrow> JUndefined | Some v \<Rightarrow> v,
            case map_of kvs ''name'' of None \<Rightarrow> JUndefined | Some v \<Rightarrow> v,
            case map_of kvs ''path'' of None \<Rightarrow> JUndefined | Some v \<Rightarrow> v)"
  using assms by (simp add: parse_source_file_def)

text \<open>
  Claim C10. The loader tests the three fields for truthiness. A configuration file in
  which one of them is the empty string is reported as missing its keys and skipped. A
  file in which all three are truthy, of whatever type, is pushed as a source, and when
  it is the only argument \<^verbatim>\<open>processSource\<close> is called with it. An environment variable that
  is the empty string counts as not set.
\<close>

theorem required_fields_by_truthiness:
  "(sourceFilePath (workdir env) a \<in> disk w
      \<and> readFileSync env (disk w) (sourceFilePath (workdir env) a) = Inr content
      \<and> JSON_parse env content = Inr (JObj kvs) \<longrightarrow>
        (map_of kvs ''name'' = Some (JStr []) \<or> map_of kvs ''repo'' = Some (JStr [])
           \<or> map_of kvs ''path'' = Some (JStr []) \<longrightarrow>
         load_source_file env (JStr a) (acc, w)
           = (Inr (acc\<lparr>hasErrors := True\<rparr>),
              report [MissingKeys (sourceFilePath (workdir env) a)] w))
      \<and> (\<forall>n r p. map_of kvs ''name'' = Some n \<and> map_of kvs ''repo'' = Some r
             \<and> map_of kvs ''path'' = Some p \<and> truthy n \<and> truthy r \<and> truthy p \<longrightarrow>
           fst (load_source_file env (JStr a) (acc, w))
             = Inr (acc\<lparr>sourcesToProcess := sourcesToProcess acc
                      @ [\<lparr>name = n, repo = r, path = p,
                          sourceOrigin = basename (sourceFilePath (workdir env) a)\<rparr>],
                      hasErrors := (hasErrors acc \<or> toString_throws n)\<rparr>)
         \<and> (positional env = [JStr a] \<and> truthy_str (GEMINI_API_KEY env) \<longrightarrow>
              fst (main env w) = 0
            \<and> invoked (snd (main env w))
                = invoked w @ [\<lparr>name = n, repo = r, path = p,
                                sourceOrigin = basename (sourceFilePath (workdir env) a)\<rparr>])))
   \<and> (REPO_URL env = Some [] \<or> PROJECT_NAME env = Some [] \<or> DOCS_DIR env = Some [] \<longrightarrow>
        load_from_environment env = None
      \<and> (positional env = [] \<longrightarrow> fst (main env w) = 1))"
proof (intro conjI impI allI)
  assume f: "sourceFilePath (workdir env) a \<in> disk w
      \<and> readFileSync env (disk w) (sourceFilePath (workdir env) a) = Inr content
      \<and> JSON_parse env content = Inr (JObj kvs)"
  then have parsed: "parse_source_file env (sourceFilePath (workdir env) a) (disk w)
     = Inr (case map_of kvs ''repo'' of None \<Rightarrow> JUndefined | Some v \<Rightarrow> v,
            case map_of kvs ''name'' of None \<Rightarrow> JUndefined | Some v \<Rightarrow> v,
            case map_of kvs ''path'' of None \<Rightarrow> JUndefined | Some v \<Rightarrow> v)"
    using load_source_file_object by blast
  {
    assume "map_of kvs ''name'' = Some (JStr []) \<or> map_of kvs ''repo'' = Some (JStr [])
           \<or> map_of kvs ''path'' = Some (JStr [])"
    then show "load_source_file env (JStr a) (acc, w)
           = (Inr (acc\<lparr>hasErrors := True\<rparr>),
              report [MissingKeys (sourceFilePath (workdir env) a)] w)"
      using f parsed by (auto simp: load_source_file_def Let_def)
  }
  fix n r p
  assume t: "map_of kvs ''name'' = Some n \<and> map_of kvs ''repo'' = Some r
             \<and> map_of kvs ''path'' = Some p \<and> truthy n \<and> truthy r \<and> truthy p"
  show "fst (load_source_file env (JStr a) (acc, w))
             = Inr (acc\<lparr>sourcesToProcess := sourcesToProcess acc
                      @ [\<lparr>name = n, repo = r, path = p,
                          sourceOrigin = basename (sourceFilePath (workdir env) a)\<rparr>],
                      hasErrors := (hasErrors acc \<or> toString_throws n)\<rparr>)"
    using f parsed t by (simp add: load_source_file_def Let_def)
  assume m: "positional env = [JStr a] \<and> truthy_str (GEMINI_API_KEY env)"
  have "valid_source env (disk w) a
      = Some \<lparr>name = n, repo = r, path = p,
               sourceOrigin = basename (sourceFilePath (workdir env) a)\<rparr>"
    using f t by (simp add: valid_source_def)
  with m have res: "resolvable env w = [\<lparr>name = n, repo = r, path = p,
                   sourceOrigin = basename (sourceFilePath (workdir env) a)\<rparr>]"
    and strings: "list_all is_string (positional env)"
    by (simp_all add: resolvable_def sources_of_def is_string_def)
  show "fst (main env w) = 0" using main_result[of env w] m res strings by simp
  show "invoked (snd (main env w))
                = invoked w @ [\<lparr>name = n, repo = r, path = p,
                                sourceOrigin = basename (sourceFilePath (workdir env) a)\<rparr>]"
    using main_result[of env w] m res strings by simp
next
  assume e: "REPO_URL env = Some [] \<or> PROJECT_NAME env = Some [] \<or> DOCS_DIR env = Some []"
  then show none: "load_from_environment env = None"
    by (auto simp: load_from_environment_def truthy_str_def)
  assume "positional env = []"
  then have "resolvable env w = []" using none by (simp add: resolvable_environment)
  then show "fst (main env w) = 1" using main_result[of env w] by simp
qed

lemma numeric_name_file:
  "sourceFilePath (workdir numeric_name) ''demo.json'' = ''/app/sources/demo.json''"
  "sourceFilePath (workdir empty_name) ''demo.json'' = ''/app/sources/demo.json''"
  by (simp_all add: numeric_name_def empty_name_def failing_clone_def sourceFilePath_def
      startsWith_def path_resolve_def SOURCES_DIR_def join_with_def)

text \<open>
  The theorem at work: a file with the number 5 as name, a file with the empty string as
  name, and an empty \<^verbatim>\<open>REPO_URL\<close>.
\<close>

theorem required_fields_by_truthiness_witness:
  "sourceFilePath (workdir numeric_name) ''demo.json'' \<in> disk start
   \<and> truthy (JNum 5)
   \<and> positional numeric_name = [JStr ''demo.json'']
   \<and> fst (main numeric_name start) = 0
   \<and> invoked (snd (main numeric_name start))
       = [\<lparr>name = JNum 5, repo = JStr ''https://example.org/demo.git'', path = JStr ''docs'',
           sourceOrigin = ''demo.json''\<rparr>]
   \<and> load_source_file empty_name (JStr ''demo.json'')
         (\<lparr>sourcesToProcess = [], hasErrors = False\<rparr>, start)
       = (Inr \<lparr>sourcesToProcess = [], hasErrors = True\<rparr>,
          report [MissingKeys ''/app/sources/demo.json''] start)
   \<and> REPO_URL empty_variable = Some []
   \<and> load_from_environment empty_variable = None
   \<and> fst (main empty_variable start) = 1"
proof -
  have d: "''/app/sources/demo.json'' \<in> disk start" by (simp add: start_def)
  have i: "invoked start = []" by (simp add: start_def)
  have b: "basename ''/app/sources/demo.json'' = ''demo.json''" by (simp add: basename_def)
  have n: "readFileSync numeric_name (disk start) ''/app/sources/demo.json'' = Inr ''demo.json''"
    "JSON_parse numeric_name ''demo.json'' = Inr (JObj [(''name'', JNum 5),
        (''repo'', JStr ''https://example.org/demo.git''), (''path'', JStr ''docs'')])"
    "positional numeric_name = [JStr ''demo.json'']"
    "truthy_str (GEMINI_API_KEY numeric_name)"
    by (simp_all add: numeric_name_def failing_clone_def truthy_str_def)
  have e: "readFileSync empty_name (disk start) ''/app/sources/demo.json'' = Inr ''demo.json''"
    "JSON_parse empty_name ''demo.json'' = Inr (JObj [(''name'', JStr []),
        (''repo'', JStr ''https://example.org/demo.git''), (''path'', JStr ''docs'')])"
    by (simp_all add: empty_name_def failing_clone_def)
  have v: "REPO_URL empty_variable = Some []" "positional empty_variable = []"
    by (simp_all add: empty_variable_def failing_clone_def)
  show ?thesis
    using required_fields_by_truthiness[of numeric_name "''demo.json''" start "''demo.json''"
        "[(''name'', JNum 5), (''repo'', JStr ''https://example.org/demo.git''),
          (''path'', JStr ''docs'')]" "\<lparr>sourcesToProcess = [], hasErrors = False\<rparr>"]
      required_fields_by_truthiness[of empty_name "''demo.json''" start "''demo.json''"
        "[(''name'', JStr []), (''repo'', JStr ''https://example.org/demo.git''),
          (''path'', JStr ''docs'')]" "\<lparr>sourcesToProcess = [], hasErrors = False\<rparr>"]
      required_fields_by_truthiness[of empty_variable "''demo.json''" start "''demo.json''"
        "[]" "\<lparr>sourcesToProcess = [], hasErrors = False\<rparr>"]
      d i b n e v
    by (simp add: numeric_name_file)
qed

end
